theory Spec2Isabelle
  imports Complex_Main "HOL-Library.Word"
begin

section \<open>Data model\<close>

text \<open>
  The session controller is the React component \<open>App\<close>. Its \<open>useState\<close> cells and
  \<open>useRef\<close> cells become the fields of one record; the variables that \<open>handleStart\<close>
  declares with \<open>let\<close> and that its callbacks close over (\<open>currentInputTranscription\<close>,
  \<open>currentOutputTranscription\<close>, \<open>currentTurnId\<close>) are fields as well.
  JavaScript numbers that denote times and samples are idealised as reals; the wall clock
  \<open>Date.now()\<close> (integral milliseconds) is a natural number. A handler body is modelled
  runs without interruption between suspension points, and what it reads from the outside
  (the playback clock, the wall clock, whether microphone access is granted) is a
  parameter of the handler. The one suspension point that is modelled as such is the
  \<open>await\<close> of the session promise in \<open>handleStop\<close>: a call that reaches it while the
  promise is pending stays suspended, other events may be handled meanwhile, and the
  call continues when the promise settles.
\<close>

datatype Status = IDLE | CONNECTING | LISTENING | SPEAKING | ERROR

record ConversationTurn =
  id_turn :: nat
  userInput :: string
  modelOutput :: string
  isComplete :: bool

text \<open>\<open>Partial<ConversationTurn>\<close>: every field may be absent.\<close>

record PartialTurn =
  p_id :: "nat option"
  p_userInput :: "string option"
  p_modelOutput :: "string option"
  p_isComplete :: "bool option"

text \<open>A decoded chunk (\<open>AudioBuffer\<close>), single channel.\<close>

record AudioBuffer =
  channelData :: "real list"
  sampleRate :: nat
  numberOfChannels :: nat

definition duration :: "AudioBuffer \<Rightarrow> real" where
  "duration b = real (length (channelData b)) / real (sampleRate b)"

text \<open>
  An \<open>AudioBufferSourceNode\<close> after \<open>start(when)\<close>: the buffer it plays, the time it
  was scheduled for, and whether \<open>stop()\<close> has been called on it. The nodes created so far
  live in a heap (a list indexed by node identity); \<open>audioSourcesRef\<close> holds identities.
\<close>

record AudioBufferSourceNode =
  buffer :: AudioBuffer
  startTime :: real
  stopped :: bool

datatype ContextState = Suspended | Running | Closed

text \<open>
  How a promise returned by \<open>ai.live.connect\<close> has settled. The promises live in a heap
  (a list indexed by promise identity) whose entries are \<open>None\<close> while the promise is
  pending; \<open>sessionPromiseRef\<close> holds an identity.
\<close>

datatype outcome = Fulfilled | Rejected

text \<open>
  Observable calls of a handler, in order: every \<open>setStatus\<close>, every
  \<open>setErrorMessage\<close>, every \<open>console.error\<close> and \<open>console.log\<close>, and the
  calls that release the session, the capture processor, the microphone tracks and the
  two audio contexts.
\<close>

datatype effect =
    SetStatus Status
  | SetErrorMessage "string option"
  | ConsoleError string
  | ConsoleLog string
  | SessionClose
  | ProcessorDisconnect
  | TracksStop
  | InputContextClose
  | OutputContextClose

datatype js_error = TypeError | DecodeError

record app =
  status :: Status
  transcript :: "ConversationTurn list"
  errorMessage :: "string option"
  aiRef :: bool
  sessionPromiseRef :: "nat option"
  inputAudioContextRef :: "ContextState option"
  outputAudioContextRef :: "ContextState option"
  microphoneStreamRef :: "unit option"
  scriptProcessorRef :: "unit option"
  audioSourcesRef :: "nat list"
  nextAudioStartTimeRef :: real
  currentInputTranscription :: string
  currentOutputTranscription :: string
  currentTurnId :: nat
  nodes :: "AudioBufferSourceNode list"
  promises :: "outcome option list"
  stopping :: "nat list"
  effects :: "effect list"

text \<open>
  \<open>stopping\<close> lists, oldest first, the calls of \<open>handleStop\<close> that are suspended at
  \<open>await sessionPromiseRef.current\<close>, each by the identity of the promise it awaits.
\<close>

text \<open>The component after mounting: the \<open>useState\<close>/\<open>useRef\<close> initial values, with
  \<open>aiRef\<close> filled by the mount effect.\<close>

definition initial :: app where
  "initial = \<lparr> status = IDLE, transcript = [], errorMessage = None, aiRef = True,
     sessionPromiseRef = None, inputAudioContextRef = None, outputAudioContextRef = None,
     microphoneStreamRef = None, scriptProcessorRef = None, audioSourcesRef = [],
     nextAudioStartTimeRef = 0, currentInputTranscription = [],
     currentOutputTranscription = [], currentTurnId = 0, nodes = [], promises = [],
     stopping = [], effects = [] \<rparr>"

definition emit :: "effect \<Rightarrow> app \<Rightarrow> app" where
  "emit e s = s\<lparr> effects := effects s @ [e] \<rparr>"

definition setStatus :: "Status \<Rightarrow> app \<Rightarrow> app" where
  "setStatus v s = s\<lparr> status := v, effects := effects s @ [SetStatus v] \<rparr>"

definition setErrorMessage :: "string option \<Rightarrow> app \<Rightarrow> app" where
  "setErrorMessage v s = s\<lparr> errorMessage := v, effects := effects s @ [SetErrorMessage v] \<rparr>"

definition console_error :: "string \<Rightarrow> app \<Rightarrow> app" where
  "console_error msg s = emit (ConsoleError msg) s"

definition console_log :: "string \<Rightarrow> app \<Rightarrow> app" where
  "console_log msg s = emit (ConsoleLog msg) s"

section \<open>Transcript model\<close>

fun findIndex :: "('a \<Rightarrow> bool) \<Rightarrow> 'a list \<Rightarrow> nat option" where
  "findIndex P [] = None"
| "findIndex P (x # xs) =
     (if P x then Some 0 else map_option Suc (findIndex P xs))"

text \<open>The object spread \<open>{ ...t, ...newTurn }\<close>: a field present in \<open>newTurn\<close> wins.\<close>

definition spread :: "ConversationTurn \<Rightarrow> PartialTurn \<Rightarrow> ConversationTurn" where
  "spread t n =
     \<lparr> id_turn = (case p_id n of None \<Rightarrow> id_turn t | Some v \<Rightarrow> v),
       userInput = (case p_userInput n of None \<Rightarrow> userInput t | Some v \<Rightarrow> v),
       modelOutput = (case p_modelOutput n of None \<Rightarrow> modelOutput t | Some v \<Rightarrow> v),
       isComplete = (case p_isComplete n of None \<Rightarrow> isComplete t | Some v \<Rightarrow> v) \<rparr>"

fun map_index :: "(nat \<Rightarrow> 'a \<Rightarrow> 'a) \<Rightarrow> nat \<Rightarrow> 'a list \<Rightarrow> 'a list" where
  "map_index f i [] = []"
| "map_index f i (x # xs) = f i x # map_index f (Suc i) xs"

definition updateTranscript_list ::
  "PartialTurn \<Rightarrow> ConversationTurn list \<Rightarrow> ConversationTurn list" where
  "updateTranscript_list newTurn prev =
     (case findIndex (\<lambda>t. Some (id_turn t) = p_id newTurn) prev of
        Some existingTurnIndex \<Rightarrow>
          map_index (\<lambda>i t. if i = existingTurnIndex then spread t newTurn else t) 0 prev
      | None \<Rightarrow>
          (case p_id newTurn of
             Some i \<Rightarrow>
               prev @ [spread \<lparr> id_turn = i, userInput = [], modelOutput = [],
                                isComplete = False \<rparr> newTurn]
           | None \<Rightarrow> prev))"

definition updateTranscript :: "PartialTurn \<Rightarrow> app \<Rightarrow> app" where
  "updateTranscript newTurn s = s\<lparr> transcript := updateTranscript_list newTurn (transcript s) \<rparr>"

section \<open>Stopping\<close>

text \<open>\<open>audioSourcesRef.current.forEach(source => source.stop())\<close> over the node heap.\<close>

definition stop_sources :: "nat list \<Rightarrow> AudioBufferSourceNode list \<Rightarrow> AudioBufferSourceNode list" where
  "stop_sources srcs ns =
     map_index (\<lambda>i n. if i \<in> set srcs then n\<lparr> stopped := True \<rparr> else n) 0 ns"

definition promise_state :: "app \<Rightarrow> nat \<Rightarrow> outcome option" where
  "promise_state s p = (if p < length (promises s) then promises s ! p else None)"

text \<open>
  The \<open>try\<close>/\<open>catch\<close> of \<open>handleStop\<close> once the awaited promise has settled: a
  fulfilled promise yields the session, which is closed; a rejected one throws at the
  \<open>await\<close>, which the \<open>catch\<close> logs. The statement after the \<open>catch\<close> clears the
  reference, whatever it holds by then.
\<close>

definition close_session :: "outcome \<Rightarrow> app \<Rightarrow> app" where
  "close_session out s =
     (case out of
        Fulfilled \<Rightarrow> emit SessionClose s
      | Rejected \<Rightarrow> console_error ''Error closing session'' s)
       \<lparr> sessionPromiseRef := None \<rparr>"

text \<open>
  The optional calls act only on a reference that is set, and a context is closed only
  when its state is not \<open>closed\<close>.
\<close>

definition release_processor :: "app \<Rightarrow> app" where
  "release_processor s =
     (case scriptProcessorRef s of None \<Rightarrow> s | Some _ \<Rightarrow> emit ProcessorDisconnect s)
       \<lparr> scriptProcessorRef := None \<rparr>"

definition release_microphone :: "app \<Rightarrow> app" where
  "release_microphone s =
     (case microphoneStreamRef s of None \<Rightarrow> s | Some _ \<Rightarrow> emit TracksStop s)
       \<lparr> microphoneStreamRef := None \<rparr>"

definition release_input_context :: "app \<Rightarrow> app" where
  "release_input_context s =
     (case inputAudioContextRef s of
        Some st \<Rightarrow> if st \<noteq> Closed then emit InputContextClose s else s
      | None \<Rightarrow> s) \<lparr> inputAudioContextRef := None \<rparr>"

definition release_output_context :: "app \<Rightarrow> app" where
  "release_output_context s =
     (case outputAudioContextRef s of
        Some st \<Rightarrow> if st \<noteq> Closed then emit OutputContextClose s else s
      | None \<Rightarrow> s) \<lparr> outputAudioContextRef := None \<rparr>"

text \<open>The three statements that stop and forget every tracked source and reset the
  cursor; \<open>handleStop\<close> ends with them and the \<open>interrupted\<close> branch consists of them.\<close>

definition stop_all_sources :: "app \<Rightarrow> app" where
  "stop_all_sources s =
     s\<lparr> nodes := stop_sources (audioSourcesRef s) (nodes s),
        audioSourcesRef := [],
        nextAudioStartTimeRef := 0 \<rparr>"

text \<open>The statements of \<open>handleStop\<close> after the \<open>if\<close> block on the session promise.\<close>

definition handleStop_rest :: "app \<Rightarrow> app" where
  "handleStop_rest s =
     stop_all_sources
       (release_output_context
         (release_input_context
           (release_microphone
             (release_processor s))))"

text \<open>
  \<open>handleStop\<close> up to its first suspension: Status is set to Idle; with no session
  promise the rest of the body runs at once; with one, the call is suspended at the
  \<open>await\<close>, and nothing has been closed or released yet.
\<close>

definition handleStop_begin :: "app \<Rightarrow> app" where
  "handleStop_begin s =
     (let s1 = setStatus IDLE s
      in case sessionPromiseRef s1 of
           None \<Rightarrow> handleStop_rest s1
         | Some p \<Rightarrow> s1\<lparr> stopping := stopping s1 @ [p] \<rparr>)"

text \<open>\<open>handleStop\<close> from the \<open>await\<close> on, for a promise that has settled with \<open>out\<close>.\<close>

definition handleStop_resume :: "outcome \<Rightarrow> app \<Rightarrow> app" where
  "handleStop_resume out s = handleStop_rest (close_session out s)"

text \<open>
  The suspended calls whose promise has settled continue, oldest first, and leave the
  list; the others stay suspended. This happens at the end of a task that has called
  \<open>handleStop\<close> or settled a promise: only these make a suspended call able to continue.
\<close>

fun resume_each :: "nat list \<Rightarrow> app \<Rightarrow> app" where
  "resume_each [] s = s"
| "resume_each (p # ps) s =
     (case promise_state s p of
        None \<Rightarrow> resume_each ps s
      | Some out \<Rightarrow> resume_each ps (handleStop_resume out s))"

definition resume_settled :: "app \<Rightarrow> app" where
  "resume_settled s =
     (resume_each (stopping s) s)
       \<lparr> stopping := filter (\<lambda>p. promise_state s p = None) (stopping s) \<rparr>"

text \<open>A call of \<open>handleStop\<close> as the last statement of a task (the click on Stop, the end of
  \<open>onerror\<close>): it runs to its suspension, and continues within the task when the promise
  it awaits has settled already.\<close>

definition handleStop :: "app \<Rightarrow> app" where
  "handleStop s = resume_settled (handleStop_begin s)"

text \<open>The promise \<open>p\<close> settles with \<open>out\<close> (once), and the calls suspended on it continue.\<close>

definition settle :: "nat \<Rightarrow> outcome \<Rightarrow> app \<Rightarrow> app" where
  "settle p out s =
     (if p < length (promises s) \<and> promises s ! p = None
      then resume_settled (s\<lparr> promises := (promises s)[p := Some out] \<rparr>)
      else s)"

section \<open>PCM codec\<close>

type_synonym byte = "8 word"

text \<open>
  Assigning a number to an element of an \<open>Int16Array\<close> (the loop of \<open>onaudioprocess\<close>):
  the value is truncated towards zero and reduced modulo \<open>2^16\<close>; nothing is clamped.
\<close>

definition to_int16 :: "real \<Rightarrow> 16 word" where
  "to_int16 y = word_of_int (if y < 0 then \<lceil>y\<rceil> else \<lfloor>y\<rfloor>)"

text \<open>\<open>new Uint8Array(int16.buffer)\<close>: each element as two bytes, low byte first.\<close>

definition int16_bytes :: "16 word \<Rightarrow> byte list" where
  "int16_bytes w = [of_nat (unat w mod 256), of_nat (unat w div 256)]"

definition buffer_bytes :: "16 word list \<Rightarrow> byte list" where
  "buffer_bytes ws = concat (map int16_bytes ws)"

text \<open>
  Modelled from the spec: the helpers \<open>encode\<close>, \<open>decode\<close> and \<open>decodeAudioData\<close> of
  \<open>utils/audioUtils\<close> are imported by the component but their file is not among the
  sources. The spec gives the transport encoding as binary-to-text, base64 (the component
  calls the inbound payload \<open>base64EncodedAudioString\<close>), the inbound samples as
  little-endian 16-bit signed PCM divided by 32768, the duration as sample count over
  sample rate, and a \<open>DecodeError\<close> for malformed text or an odd number of bytes.
  Base64 is the standard alphabet with \<open>=\<close> padding.
\<close>

definition b64_char :: "nat \<Rightarrow> char" where
  "b64_char n =
     (if n < 26 then char_of (65 + n)
      else if n < 52 then char_of (71 + n)
      else if n < 62 then char_of (n - 4)
      else if n = 62 then CHR ''+'' else CHR ''/'')"

text \<open>Modelled from the spec: the value of a base64 character, none for a character outside the alphabet (part of the absent \<open>decode\<close>).\<close>

definition b64_value :: "char \<Rightarrow> nat option" where
  "b64_value c =
     (let k = (of_char c :: nat) in
      if 65 \<le> k \<and> k \<le> 90 then Some (k - 65)
      else if 97 \<le> k \<and> k \<le> 122 then Some (k - 71)
      else if 48 \<le> k \<and> k \<le> 57 then Some (k + 4)
      else if k = 43 then Some 62
      else if k = 47 then Some 63
      else None)"

text \<open>Modelled from the spec: the absent helper \<open>encode\<close>, the transport encoding of bytes as base64 text.\<close>

fun encode :: "byte list \<Rightarrow> string" where
  "encode [] = []"
| "encode [a] =
     [b64_char (unat a div 4), b64_char ((unat a mod 4) * 16), CHR ''='', CHR ''='']"
| "encode [a, b] =
     [b64_char (unat a div 4), b64_char ((unat a mod 4) * 16 + unat b div 16),
      b64_char ((unat b mod 16) * 4), CHR ''='']"
| "encode (a # b # c # r) =
     b64_char (unat a div 4) # b64_char ((unat a mod 4) * 16 + unat b div 16) #
     b64_char ((unat b mod 16) * 4 + unat c div 64) # b64_char (unat c mod 64) # encode r"

text \<open>Modelled from the spec: the absent helper \<open>decode\<close>, which reverses the transport encoding; \<open>None\<close> is malformed text.\<close>

fun decode :: "string \<Rightarrow> byte list option" where
  "decode [] = Some []"
| "decode (c1 # c2 # c3 # c4 # r) =
     (case (b64_value c1, b64_value c2) of
        (Some p, Some q) \<Rightarrow>
          if r = [] \<and> c3 = CHR ''='' \<and> c4 = CHR ''=''
          then Some [of_nat (p * 4 + q div 16)]
          else (case b64_value c3 of
                  None \<Rightarrow> None
                | Some u \<Rightarrow>
                    if r = [] \<and> c4 = CHR ''=''
                    then Some [of_nat (p * 4 + q div 16), of_nat ((q mod 16) * 16 + u div 4)]
                    else (case b64_value c4 of
                            None \<Rightarrow> None
                          | Some v \<Rightarrow>
                              map_option
                                (\<lambda>bs. of_nat (p * 4 + q div 16) #
                                      of_nat ((q mod 16) * 16 + u div 4) #
                                      of_nat ((u mod 4) * 64 + v) # bs)
                                (decode r)))
      | _ \<Rightarrow> None)"
| "decode _ = None"

text \<open>Modelled from the spec: the bytes read as little-endian 16-bit values (part of the absent \<open>decodeAudioData\<close>); an odd number of bytes has no reading.\<close>

fun int16_of_bytes :: "byte list \<Rightarrow> 16 word list option" where
  "int16_of_bytes [] = Some []"
| "int16_of_bytes [b] = None"
| "int16_of_bytes (lo # hi # r) =
     map_option (\<lambda>ws. of_nat (unat lo + 256 * unat hi) # ws) (int16_of_bytes r)"

text \<open>Modelled from the spec: the absent helper \<open>decodeAudioData\<close>: each signed 16-bit sample divided by 32768, packed with the sample rate and channel count; \<open>DecodeError\<close> for an odd number of bytes.\<close>

definition decodeAudioData :: "byte list \<Rightarrow> nat \<Rightarrow> nat \<Rightarrow> js_error + AudioBuffer" where
  "decodeAudioData bytes rate channels =
     (case int16_of_bytes bytes of
        None \<Rightarrow> Inl DecodeError
      | Some ws \<Rightarrow>
          Inr \<lparr> channelData = map (\<lambda>w. real_of_int (sint w) / 32768) ws,
                sampleRate = rate, numberOfChannels = channels \<rparr>)"

text \<open>Modelled from the spec: the spec's \<open>decodeChunk\<close>, the composition \<open>decodeAudioData(decode(text), ...)\<close> that the component calls; \<open>DecodeError\<close> for malformed text.\<close>

definition decodeChunk :: "string \<Rightarrow> nat \<Rightarrow> nat \<Rightarrow> js_error + AudioBuffer" where
  "decodeChunk encodedText rate channels =
     (case decode encodedText of
        None \<Rightarrow> Inl DecodeError
      | Some bytes \<Rightarrow> decodeAudioData bytes rate channels)"

text \<open>The outbound frame built by \<open>onaudioprocess\<close> from one block of input samples.\<close>

record Blob =
  data :: string
  mimeType :: string

definition onaudioprocess :: "real list \<Rightarrow> Blob" where
  "onaudioprocess inputData =
     \<lparr> data = encode (buffer_bytes (map (\<lambda>x. to_int16 (x * 32768)) inputData)),
       mimeType = ''audio/pcm;rate=16000'' \<rparr>"

definition encodeFrame :: "real list \<Rightarrow> string" where
  "encodeFrame samples = data (onaudioprocess samples)"

text \<open>What one sample becomes on the way out and back: scaled by 32768, stored in an
  \<open>Int16Array\<close> element, read back as a signed 16-bit value and divided by 32768.\<close>

definition quantize :: "real \<Rightarrow> real" where
  "quantize x = real_of_int (sint (to_int16 (x * 32768))) / 32768"

section \<open>Starting a session\<close>

datatype js_thrown = Error string string | NotAnError

text \<open>What \<open>handleStart\<close> obtains from outside: whether \<open>getUserMedia\<close> rejects (and with
  what) and the reading of \<open>Date.now()\<close>. The promise that \<open>ai.live.connect\<close> returns is
  new and pending.\<close>

record start_env =
  getUserMedia :: "js_thrown option"
  dateNow :: nat

definition catch_message :: "js_thrown \<Rightarrow> string" where
  "catch_message thrown =
     (case thrown of
        Error name msg \<Rightarrow>
          if name = ''NotAllowedError''
          then ''Microphone access was denied. Please allow microphone access in your browser settings.''
          else msg
      | NotAnError \<Rightarrow> ''An unknown error occurred.'')"

definition handleStart :: "start_env \<Rightarrow> app \<Rightarrow> app" where
  "handleStart env s =
     (let s1 = (setErrorMessage None (setStatus CONNECTING s))\<lparr> transcript := [] \<rparr>
      in if \<not> aiRef s1
         then setErrorMessage (Some ''Gemini AI not initialized.'') (setStatus ERROR s1)
         else
           (let s2 = s1\<lparr> inputAudioContextRef := Some Running,
                          outputAudioContextRef := Some Running \<rparr>
            in case getUserMedia env of
                 Some thrown \<Rightarrow>
                   setStatus ERROR
                     (setErrorMessage (Some (catch_message thrown))
                       (console_error ''Failed to start session:'' s2))
               | None \<Rightarrow>
                   (let s3 = s2\<lparr> microphoneStreamRef := Some (),
                                  currentInputTranscription := [],
                                  currentOutputTranscription := [],
                                  currentTurnId := dateNow env \<rparr>;
                        s4 = updateTranscript
                               \<lparr> p_id = Some (currentTurnId s3), p_userInput = None,
                                 p_modelOutput = None, p_isComplete = Some False \<rparr> s3
                    in s4\<lparr> promises := promises s4 @ [None],
                           sessionPromiseRef := Some (length (promises s4)) \<rparr>)))"

section \<open>Session callbacks\<close>

definition onopen :: "app \<Rightarrow> app \<times> js_error option" where
  "onopen s =
     (let s1 = setStatus LISTENING s
      in case inputAudioContextRef s1 of
           None \<Rightarrow> (s1, Some TypeError)
         | Some _ \<Rightarrow> (s1\<lparr> scriptProcessorRef := Some () \<rparr>, None))"

datatype Part = Part (inlineData: "string option")

text \<open>A transcription object; its \<open>text\<close> may be absent.\<close>

datatype Transcription = Transcription (text_of: "string option")

text \<open>What \<open>+=\<close> appends to a string for a value that may be \<open>undefined\<close>.\<close>

definition js_text :: "string option \<Rightarrow> string" where
  "js_text v = (case v of None \<Rightarrow> ''undefined'' | Some t \<Rightarrow> t)"

text \<open>
  An inbound message, with \<open>serverContent\<close> flattened: a field that is absent, or whose
  \<open>serverContent\<close> is absent, is \<open>None\<close> (or \<open>False\<close>). \<open>modelTurn\<close> holds the parts;
  \<open>inlineData\<close> of a part holds the \<open>data\<close> string.
\<close>

record LiveServerMessage =
  inputTranscription :: "Transcription option"
  outputTranscription :: "Transcription option"
  modelTurn :: "Part list option"
  turnComplete :: bool
  interrupted :: bool

text \<open>\<open>message.serverContent?.modelTurn?.parts[0]?.inlineData.data\<close>: a first part
  without \<open>inlineData\<close> makes the last access throw.\<close>

definition base64EncodedAudioString :: "LiveServerMessage \<Rightarrow> js_error + string option" where
  "base64EncodedAudioString m =
     (case modelTurn m of
        None \<Rightarrow> Inr None
      | Some [] \<Rightarrow> Inr None
      | Some (p # _) \<Rightarrow>
          (case inlineData p of None \<Rightarrow> Inl TypeError | Some d \<Rightarrow> Inr (Some d)))"

definition onmessage_inputTranscription :: "LiveServerMessage \<Rightarrow> app \<Rightarrow> app" where
  "onmessage_inputTranscription m s =
     (case inputTranscription m of
        None \<Rightarrow> s
      | Some tr \<Rightarrow>
          (let s1 = s\<lparr> currentInputTranscription :=
                         currentInputTranscription s @ js_text (text_of tr) \<rparr>
           in updateTranscript
                \<lparr> p_id = Some (currentTurnId s1),
                  p_userInput = Some (currentInputTranscription s1),
                  p_modelOutput = None, p_isComplete = None \<rparr> s1))"

definition onmessage_outputTranscription :: "LiveServerMessage \<Rightarrow> app \<Rightarrow> app" where
  "onmessage_outputTranscription m s =
     (case outputTranscription m of
        None \<Rightarrow> s
      | Some tr \<Rightarrow>
          (let s1 = setStatus SPEAKING s;
               s2 = s1\<lparr> currentOutputTranscription :=
                          currentOutputTranscription s1 @ js_text (text_of tr) \<rparr>
           in updateTranscript
                \<lparr> p_id = Some (currentTurnId s2), p_userInput = None,
                  p_modelOutput = Some (currentOutputTranscription s2),
                  p_isComplete = None \<rparr> s2))"

text \<open>\<open>Set.add\<close> and \<open>Set.delete\<close> on the tracked identities.\<close>

definition set_add :: "nat \<Rightarrow> nat list \<Rightarrow> nat list" where
  "set_add x xs = (if x \<in> set xs then xs else xs @ [x])"

definition set_delete :: "nat \<Rightarrow> nat list \<Rightarrow> nat list" where
  "set_delete x xs = removeAll x xs"

text \<open>
  The audio branch of \<open>onmessage\<close>; \<open>now\<close> is \<open>outputAudioContext.currentTime\<close>. The
  cursor is raised to the clock before the payload is decoded; a decode failure throws out
  of the handler at that point.
\<close>

definition onmessage_audio :: "LiveServerMessage \<Rightarrow> real \<Rightarrow> app \<Rightarrow> app \<times> js_error option" where
  "onmessage_audio m now s =
     (case base64EncodedAudioString m of
        Inl e \<Rightarrow> (s, Some e)
      | Inr None \<Rightarrow> (s, None)
      | Inr (Some b64) \<Rightarrow>
          if b64 \<noteq> [] \<and> outputAudioContextRef s \<noteq> None
          then
            (let s1 = s\<lparr> nextAudioStartTimeRef := max (nextAudioStartTimeRef s) now \<rparr>
             in case decodeChunk b64 24000 1 of
                  Inl e \<Rightarrow> (s1, Some e)
                | Inr audioBuffer \<Rightarrow>
                    (let sourceNode = length (nodes s1);
                         s2 = s1\<lparr> nodes := nodes s1 @
                                  [\<lparr> buffer = audioBuffer,
                                     startTime = nextAudioStartTimeRef s1,
                                     stopped = False \<rparr>] \<rparr>;
                         s3 = s2\<lparr> nextAudioStartTimeRef :=
                                    nextAudioStartTimeRef s2 + duration audioBuffer \<rparr>
                     in (s3\<lparr> audioSourcesRef := set_add sourceNode (audioSourcesRef s3) \<rparr>,
                         None)))
          else (s, None))"

text \<open>The \<open>ended\<close> listener registered on a source node.\<close>

definition ended :: "nat \<Rightarrow> app \<Rightarrow> app" where
  "ended sourceNode s =
     (let s1 = s\<lparr> audioSourcesRef := set_delete sourceNode (audioSourcesRef s) \<rparr>
      in if length (audioSourcesRef s1) = 0 then setStatus LISTENING s1 else s1)"

definition onmessage_turnComplete :: "LiveServerMessage \<Rightarrow> nat \<Rightarrow> app \<Rightarrow> app" where
  "onmessage_turnComplete m date_now s =
     (if turnComplete m
      then
        (let s1 = updateTranscript
                    \<lparr> p_id = Some (currentTurnId s), p_userInput = None,
                      p_modelOutput = None, p_isComplete = Some True \<rparr> s;
             s2 = s1\<lparr> currentInputTranscription := [],
                       currentOutputTranscription := [],
                       currentTurnId := date_now \<rparr>
         in updateTranscript
              \<lparr> p_id = Some (currentTurnId s2), p_userInput = None,
                p_modelOutput = None, p_isComplete = Some False \<rparr> s2)
      else s)"

definition onmessage_interrupted :: "LiveServerMessage \<Rightarrow> app \<Rightarrow> app" where
  "onmessage_interrupted m s = (if interrupted m then stop_all_sources s else s)"

text \<open>
  \<open>onmessage\<close>: the five branches in source order. \<open>now\<close> is the playback clock and
  \<open>date_now\<close> the wall clock at the time of the call. An exception in the audio branch
  ends the handler, so the two branches after it do not run.
\<close>

definition onmessage :: "LiveServerMessage \<Rightarrow> real \<Rightarrow> nat \<Rightarrow> app \<Rightarrow> app \<times> js_error option" where
  "onmessage m now date_now s =
     (case onmessage_audio m now
             (onmessage_outputTranscription m (onmessage_inputTranscription m s)) of
        (s1, Some e) \<Rightarrow> (s1, Some e)
      | (s1, None) \<Rightarrow>
          (onmessage_interrupted m (onmessage_turnComplete m date_now s1), None))"

definition onerror :: "app \<Rightarrow> app" where
  "onerror s =
     handleStop
       (setStatus ERROR
         (setErrorMessage (Some ''An error occurred with the connection.'')
           (console_error ''Session error'' s)))"

definition onclose :: "app \<Rightarrow> app" where
  "onclose s = console_log ''Session closed'' s"

section \<open>The main button and runs of events\<close>

datatype MainButton = StartButton | StopButton

definition renderMainButton :: "app \<Rightarrow> MainButton" where
  "renderMainButton s =
     (if status s = IDLE \<or> status s = ERROR then StartButton else StopButton)"

definition click_main :: "start_env \<Rightarrow> app \<Rightarrow> app" where
  "click_main env s =
     (case renderMainButton s of
        StartButton \<Rightarrow> handleStart env s
      | StopButton \<Rightarrow> handleStop s)"

datatype event =
    ClickMain start_env
  | OnOpen
  | OnMessage LiveServerMessage real nat
  | OnError
  | OnClose
  | Ended nat
  | Settle nat outcome

fun dispatch :: "event \<Rightarrow> app \<Rightarrow> app" where
  "dispatch (ClickMain env) s = click_main env s"
| "dispatch OnOpen s = fst (onopen s)"
| "dispatch (OnMessage m now date_now) s = fst (onmessage m now date_now s)"
| "dispatch OnError s = onerror s"
| "dispatch OnClose s = onclose s"
| "dispatch (Ended n) s = ended n s"
| "dispatch (Settle p out) s = settle p out s"

definition run :: "event list \<Rightarrow> app \<Rightarrow> app" where
  "run evs s = fold dispatch evs s"

section \<open>Vocabulary of the properties\<close>

text \<open>The chunk that the audio branch plays for a message: the decoded payload, when
  there is a non-empty payload and it decodes.\<close>

definition message_chunk :: "LiveServerMessage \<Rightarrow> AudioBuffer option" where
  "message_chunk m =
     (case base64EncodedAudioString m of
        Inr (Some b64) \<Rightarrow>
          if b64 \<noteq> []
          then (case decodeChunk b64 24000 1 of Inr b \<Rightarrow> Some b | Inl _ \<Rightarrow> None)
          else None
      | _ \<Rightarrow> None)"

definition chunk_duration :: "LiveServerMessage \<Rightarrow> real" where
  "chunk_duration m = (case message_chunk m of Some b \<Rightarrow> duration b | None \<Rightarrow> 0)"

text \<open>A sequence of inbound messages, each with the two clock readings of its handling.\<close>

type_synonym arrival = "LiveServerMessage \<times> real \<times> nat"

definition arrivals :: "arrival list \<Rightarrow> event list" where
  "arrivals ms = map (\<lambda>(m, now, date_now). OnMessage m now date_now) ms"

definition clock_at :: "arrival \<Rightarrow> real" where
  "clock_at a = fst (snd a)"

definition duration_at :: "arrival \<Rightarrow> real" where
  "duration_at a = chunk_duration (fst a)"

text \<open>The start times of the units created between two states.\<close>

definition scheduled_starts :: "app \<Rightarrow> app \<Rightarrow> real list" where
  "scheduled_starts s s' = map startTime (drop (length (nodes s)) (nodes s'))"

text \<open>The scheduling rule of the spec's \<open>enqueue\<close>, as a recurrence on the cursor: from
  cursor \<open>c\<close>, a chunk of duration \<open>d\<close> arriving at clock \<open>now\<close> starts at \<open>max c now\<close> and
  leaves the cursor at \<open>max c now + d\<close>.\<close>

fun enqueue_starts :: "real \<Rightarrow> (real \<times> real) list \<Rightarrow> real list" where
  "enqueue_starts c [] = []"
| "enqueue_starts c ((now, d) # r) = max c now # enqueue_starts (max c now + d) r"





text \<open>The values that Status takes between two states: the value in the first state,
  then every \<open>setStatus\<close> recorded since.\<close>

fun status_writes :: "effect list \<Rightarrow> Status list" where
  "status_writes [] = []"
| "status_writes (SetStatus v # es) = v # status_writes es"
| "status_writes (_ # es) = status_writes es"

definition status_history :: "app \<Rightarrow> app \<Rightarrow> Status list" where
  "status_history s s' = status s # status_writes (drop (length (effects s)) (effects s'))"

text \<open>A step that only appends to the record of effects and sets no Status.\<close>

definition quiet :: "(app \<Rightarrow> app) \<Rightarrow> bool" where
  "quiet f = (\<forall>s. \<exists>ws. effects (f s) = effects s @ ws \<and> status_writes ws = [] \<and>
                       status (f s) = status s)"

text \<open>A sequence of Status values moves along the edges \<open>E\<close>: wherever two consecutive
  values differ, the pair is an edge.\<close>

fun path_ok :: "(Status \<Rightarrow> Status \<Rightarrow> bool) \<Rightarrow> Status list \<Rightarrow> bool" where
  "path_ok E (a # b # r) = ((a = b \<or> E a b) \<and> path_ok E (b # r))"
| "path_ok E _ = True"

text \<open>The edges of the spec's Status machine.\<close>

definition spec_edge :: "Status \<Rightarrow> Status \<Rightarrow> bool" where
  "spec_edge a b =
     ((a = IDLE \<and> b = CONNECTING) \<or> (a = CONNECTING \<and> b = LISTENING) \<or>
      (a = CONNECTING \<and> b = ERROR) \<or> (a = LISTENING \<and> b = SPEAKING) \<or>
      (a = SPEAKING \<and> b = LISTENING) \<or> b = IDLE \<or> b = ERROR)"

text \<open>The same edges and the restart after an error, which the main button offers.\<close>

definition code_edge :: "Status \<Rightarrow> Status \<Rightarrow> bool" where
  "code_edge a b = (spec_edge a b \<or> (a = ERROR \<and> b = CONNECTING))"

text \<open>
  A session callback arrives in the phase it belongs to: \<open>onopen\<close> while Status is
  Connecting; an output transcription and the \<open>ended\<close> event of a source while Status is
  Listening or Speaking. Clicks, errors, closes and other messages are not restricted.
\<close>

fun in_phase :: "event \<Rightarrow> app \<Rightarrow> bool" where
  "in_phase OnOpen s = (status s = CONNECTING)"
| "in_phase (OnMessage m now date_now) s =
     (outputTranscription m = None \<or> status s = LISTENING \<or> status s = SPEAKING)"
| "in_phase (Ended n) s = (status s = LISTENING \<or> status s = SPEAKING)"
| "in_phase _ s = True"

fun phased :: "event list \<Rightarrow> app \<Rightarrow> bool" where
  "phased [] s = True"
| "phased (e # es) s = (in_phase e s \<and> phased es (dispatch e s))"

section \<open>Concrete sessions\<close>

definition granted :: "nat \<Rightarrow> start_env" where
  "granted date_now = \<lparr> getUserMedia = None, dateNow = date_now \<rparr>"

definition denied :: "nat \<Rightarrow> start_env" where
  "denied date_now =
     \<lparr> getUserMedia = Some (Error ''NotAllowedError'' ''Permission denied''),
       dateNow = date_now \<rparr>"

definition no_content :: LiveServerMessage where
  "no_content = \<lparr> inputTranscription = None, outputTranscription = None, modelTurn = None,
                   turnComplete = False, interrupted = False \<rparr>"

definition audio_message :: "string \<Rightarrow> LiveServerMessage" where
  "audio_message b64 = no_content\<lparr> modelTurn := Some [Part (Some b64)] \<rparr>"

definition input_message :: "string \<Rightarrow> LiveServerMessage" where
  "input_message fragment =
     no_content\<lparr> inputTranscription := Some (Transcription (Some fragment)) \<rparr>"

definition output_message :: "string \<Rightarrow> LiveServerMessage" where
  "output_message fragment =
     no_content\<lparr> outputTranscription := Some (Transcription (Some fragment)) \<rparr>"

definition turnComplete_message :: LiveServerMessage where
  "turnComplete_message = no_content\<lparr> turnComplete := True \<rparr>"

definition interrupted_message :: LiveServerMessage where
  "interrupted_message = no_content\<lparr> interrupted := True \<rparr>"

text \<open>A session that was started at wall-clock time 1000 and has opened, its promise
  fulfilled.\<close>

definition listening :: app where
  "listening = run [ClickMain (granted 1000), OnOpen, Settle 0 Fulfilled] initial"

text \<open>A start at wall-clock time 1000 followed by a click on the main button (the Stop
  button) while the session is still connecting.\<close>

definition stopped_while_connecting :: app where
  "stopped_while_connecting = run [ClickMain (granted 1000), ClickMain (granted 1500)] initial"



text \<open>Two chunks of one sample each (\<open>AAA=\<close> is base64 for two zero bytes), both
  arriving while the playback clock reads 5.\<close>

definition two_chunks :: "arrival list" where
  "two_chunks = [(audio_message ''AAA='', 5, 1001), (audio_message ''AAA='', 5, 1002)]"

definition playing :: app where
  "playing = run (arrivals two_chunks) listening"

section \<open>Proofs\<close>

subsection \<open>Stopping\<close>

lemma map_index_id: "map_index (\<lambda>i n. n) k ns = ns"
  by (induction ns arbitrary: k) auto

lemma stop_sources_Nil: "stop_sources [] ns = ns"
  by (simp add: stop_sources_def map_index_id)

lemmas release_defs = stop_all_sources_def release_output_context_def
  release_input_context_def release_microphone_def release_processor_def
  emit_def console_error_def

lemmas stop_defs = handleStop_rest_def release_defs close_session_def setStatus_def

text \<open>What the statements after the \<open>if\<close> block leave behind, and what they do not touch.\<close>

lemma handleStop_rest_fields:
  "audioSourcesRef (handleStop_rest s) = []"
  "nextAudioStartTimeRef (handleStop_rest s) = 0"
  "scriptProcessorRef (handleStop_rest s) = None"
  "microphoneStreamRef (handleStop_rest s) = None"
  "inputAudioContextRef (handleStop_rest s) = None"
  "outputAudioContextRef (handleStop_rest s) = None"
  by (simp_all add: handleStop_rest_def release_defs split: option.splits)

lemma handleStop_rest_frame:
  "status (handleStop_rest s) = status s"
  "transcript (handleStop_rest s) = transcript s"
  "currentTurnId (handleStop_rest s) = currentTurnId s"
  "currentInputTranscription (handleStop_rest s) = currentInputTranscription s"
  "sessionPromiseRef (handleStop_rest s) = sessionPromiseRef s"
  "promises (handleStop_rest s) = promises s"
  "stopping (handleStop_rest s) = stopping s"
  by (simp_all add: handleStop_rest_def release_defs split: option.splits)

lemma close_session_frame:
  "status (close_session out s) = status s"
  "transcript (close_session out s) = transcript s"
  "currentTurnId (close_session out s) = currentTurnId s"
  "currentInputTranscription (close_session out s) = currentInputTranscription s"
  "sessionPromiseRef (close_session out s) = None"
  "promises (close_session out s) = promises s"
  "stopping (close_session out s) = stopping s"
  by (simp_all add: close_session_def emit_def console_error_def split: outcome.splits)

lemma handleStop_resume_frame:
  "status (handleStop_resume out s) = status s"
  "transcript (handleStop_resume out s) = transcript s"
  "currentTurnId (handleStop_resume out s) = currentTurnId s"
  "currentInputTranscription (handleStop_resume out s) = currentInputTranscription s"
  "promises (handleStop_resume out s) = promises s"
  "stopping (handleStop_resume out s) = stopping s"
  by (simp_all add: handleStop_resume_def handleStop_rest_frame close_session_frame)

lemma handleStop_resume_fields:
  "sessionPromiseRef (handleStop_resume out s) = None"
  "audioSourcesRef (handleStop_resume out s) = []"
  "nextAudioStartTimeRef (handleStop_resume out s) = 0"
  "scriptProcessorRef (handleStop_resume out s) = None"
  "microphoneStreamRef (handleStop_resume out s) = None"
  "inputAudioContextRef (handleStop_resume out s) = None"
  "outputAudioContextRef (handleStop_resume out s) = None"
  by (simp_all add: handleStop_resume_def handleStop_rest_fields handleStop_rest_frame
        close_session_frame)

lemma promise_state_resume [simp]:
  "promise_state (handleStop_resume out s) p = promise_state s p"
  by (simp add: promise_state_def handleStop_resume_frame)

lemma resume_each_frame:
  "status (resume_each ps s) = status s"
  "transcript (resume_each ps s) = transcript s"
  "currentTurnId (resume_each ps s) = currentTurnId s"
  "currentInputTranscription (resume_each ps s) = currentInputTranscription s"
  "promises (resume_each ps s) = promises s"
  "stopping (resume_each ps s) = stopping s"
  by (induction ps arbitrary: s; simp add: handleStop_resume_frame split: option.splits)+

lemma resume_settled_frame:
  "status (resume_settled s) = status s"
  "transcript (resume_settled s) = transcript s"
  "currentTurnId (resume_settled s) = currentTurnId s"
  "currentInputTranscription (resume_settled s) = currentInputTranscription s"
  "promises (resume_settled s) = promises s"
  by (simp_all add: resume_settled_def resume_each_frame)

lemma handleStop_begin_frame:
  "status (handleStop_begin s) = IDLE"
  "transcript (handleStop_begin s) = transcript s"
  "currentTurnId (handleStop_begin s) = currentTurnId s"
  "currentInputTranscription (handleStop_begin s) = currentInputTranscription s"
  "promises (handleStop_begin s) = promises s"
  by (simp_all add: handleStop_begin_def Let_def handleStop_rest_frame setStatus_def
        split: option.splits)

lemma handleStop_frame:
  "status (handleStop s) = IDLE"
  "transcript (handleStop s) = transcript s"
  "currentTurnId (handleStop s) = currentTurnId s"
  "currentInputTranscription (handleStop s) = currentInputTranscription s"
  "promises (handleStop s) = promises s"
  by (simp_all add: handleStop_def resume_settled_frame handleStop_begin_frame)


text \<open>
  C9 (the code departs from the claim). The \<open>onerror\<close> callback logs, sets the error
  message once, sets Status to Error and then calls \<open>handleStop\<close>, whose first statement
  sets Status to Idle: when the handler has completed, Status is Idle, not Error.
\<close>

theorem onerror_ends_idle:
  "status (onerror s) = IDLE \<and> status (dispatch OnError listening) \<noteq> ERROR"
  by (simp add: onerror_def handleStop_frame)

subsection \<open>Scheduling\<close>


lemma updateTranscript_frame [simp]:
  "status (updateTranscript p s) = status s"
  "effects (updateTranscript p s) = effects s"
  "nodes (updateTranscript p s) = nodes s"
  "audioSourcesRef (updateTranscript p s) = audioSourcesRef s"
  "nextAudioStartTimeRef (updateTranscript p s) = nextAudioStartTimeRef s"
  "outputAudioContextRef (updateTranscript p s) = outputAudioContextRef s"
  "sessionPromiseRef (updateTranscript p s) = sessionPromiseRef s"
  "currentTurnId (updateTranscript p s) = currentTurnId s"
  "currentInputTranscription (updateTranscript p s) = currentInputTranscription s"
  "currentOutputTranscription (updateTranscript p s) = currentOutputTranscription s"
  by (simp_all add: updateTranscript_def)

lemma inputTranscription_frame [simp]:
  "status (onmessage_inputTranscription m s) = status s"
  "effects (onmessage_inputTranscription m s) = effects s"
  "nodes (onmessage_inputTranscription m s) = nodes s"
  "audioSourcesRef (onmessage_inputTranscription m s) = audioSourcesRef s"
  "nextAudioStartTimeRef (onmessage_inputTranscription m s) = nextAudioStartTimeRef s"
  "outputAudioContextRef (onmessage_inputTranscription m s) = outputAudioContextRef s"
  "sessionPromiseRef (onmessage_inputTranscription m s) = sessionPromiseRef s"
  "currentTurnId (onmessage_inputTranscription m s) = currentTurnId s"
  by (simp_all add: onmessage_inputTranscription_def Let_def split: option.splits)

lemma outputTranscription_frame [simp]:
  "nodes (onmessage_outputTranscription m s) = nodes s"
  "audioSourcesRef (onmessage_outputTranscription m s) = audioSourcesRef s"
  "nextAudioStartTimeRef (onmessage_outputTranscription m s) = nextAudioStartTimeRef s"
  "outputAudioContextRef (onmessage_outputTranscription m s) = outputAudioContextRef s"
  "sessionPromiseRef (onmessage_outputTranscription m s) = sessionPromiseRef s"
  "currentTurnId (onmessage_outputTranscription m s) = currentTurnId s"
  "currentInputTranscription (onmessage_outputTranscription m s) = currentInputTranscription s"
  by (simp_all add: onmessage_outputTranscription_def Let_def setStatus_def split: option.splits)

lemma turnComplete_frame [simp]:
  "status (onmessage_turnComplete m dn s) = status s"
  "effects (onmessage_turnComplete m dn s) = effects s"
  "nodes (onmessage_turnComplete m dn s) = nodes s"
  "audioSourcesRef (onmessage_turnComplete m dn s) = audioSourcesRef s"
  "nextAudioStartTimeRef (onmessage_turnComplete m dn s) = nextAudioStartTimeRef s"
  "outputAudioContextRef (onmessage_turnComplete m dn s) = outputAudioContextRef s"
  "sessionPromiseRef (onmessage_turnComplete m dn s) = sessionPromiseRef s"
  by (simp_all add: onmessage_turnComplete_def Let_def)

lemma audio_enqueue:
  assumes "message_chunk m = Some b" and "outputAudioContextRef s \<noteq> None"
  shows "onmessage_audio m now s =
     (s\<lparr> nodes := nodes s @ [\<lparr> buffer = b, startTime = max (nextAudioStartTimeRef s) now,
                                stopped = False \<rparr>],
         nextAudioStartTimeRef := max (nextAudioStartTimeRef s) now + duration b,
         audioSourcesRef := set_add (length (nodes s)) (audioSourcesRef s) \<rparr>, None)"
  using assms
  by (auto simp: message_chunk_def onmessage_audio_def Let_def
           split: sum.splits option.splits if_splits)

lemma onmessage_enqueue:
  assumes "message_chunk m = Some b" and "outputAudioContextRef s \<noteq> None"
    and "\<not> interrupted m"
  shows "nodes (fst (onmessage m now dn s)) =
           nodes s @ [\<lparr> buffer = b, startTime = max (nextAudioStartTimeRef s) now,
                        stopped = False \<rparr>]"
    and "nextAudioStartTimeRef (fst (onmessage m now dn s)) =
           max (nextAudioStartTimeRef s) now + duration b"
    and "outputAudioContextRef (fst (onmessage m now dn s)) = outputAudioContextRef s"
    and "snd (onmessage m now dn s) = None"
  using assms
  by (simp_all add: onmessage_def audio_enqueue onmessage_interrupted_def)

lemma run_arrivals_Cons:
  "run (arrivals ((m, now, dn) # ms)) s = run (arrivals ms) (fst (onmessage m now dn s))"
  by (simp add: run_def arrivals_def)

lemma nodes_run_arrivals:
  assumes "outputAudioContextRef s \<noteq> None"
    and "\<forall>a \<in> set ms. message_chunk (fst a) \<noteq> None \<and> \<not> interrupted (fst a)"
  shows "\<exists>ns. nodes (run (arrivals ms) s) = nodes s @ ns \<and>
           map startTime ns = enqueue_starts (nextAudioStartTimeRef s)
             (map (\<lambda>a. (clock_at a, duration_at a)) ms)"
  using assms
proof (induction ms arbitrary: s)
  case Nil
  then show ?case by (simp add: run_def arrivals_def)
next
  case (Cons a ms)
  obtain m now dn where a: "a = (m, now, dn)" by (cases a) auto
  from Cons.prems a obtain b where b: "message_chunk m = Some b" and ni: "\<not> interrupted m"
    by auto
  let ?s1 = "fst (onmessage m now dn s)"
  note step = onmessage_enqueue [OF b Cons.prems(1) ni, of now dn]
  have "outputAudioContextRef ?s1 \<noteq> None" using step(3) Cons.prems(1) by simp
  moreover have "\<forall>a \<in> set ms. message_chunk (fst a) \<noteq> None \<and> \<not> interrupted (fst a)"
    using Cons.prems(2) by simp
  ultimately obtain ns where ns: "nodes (run (arrivals ms) ?s1) = nodes ?s1 @ ns"
    "map startTime ns = enqueue_starts (nextAudioStartTimeRef ?s1)
             (map (\<lambda>a. (clock_at a, duration_at a)) ms)"
    using Cons.IH by blast
  show ?case
    apply (rule exI [of _ "\<lparr> buffer = b, startTime = max (nextAudioStartTimeRef s) now,
                        stopped = False \<rparr> # ns"])
    using ns step b
    by (simp add: a run_arrivals_Cons clock_at_def duration_at_def chunk_duration_def)
qed

lemma scheduled_starts_arrivals:
  assumes "outputAudioContextRef s \<noteq> None"
    and "\<forall>a \<in> set ms. message_chunk (fst a) \<noteq> None \<and> \<not> interrupted (fst a)"
  shows "scheduled_starts s (run (arrivals ms) s) =
           enqueue_starts (nextAudioStartTimeRef s) (map (\<lambda>a. (clock_at a, duration_at a)) ms)"
  using nodes_run_arrivals [OF assms] by (auto simp: scheduled_starts_def)

lemma enqueue_starts_length: "length (enqueue_starts c xs) = length xs"
  by (induction c xs rule: enqueue_starts.induct) auto

lemma enqueue_starts_0: "xs \<noteq> [] \<Longrightarrow> enqueue_starts c xs ! 0 = max c (fst (xs ! 0))"
  by (cases xs) auto

lemma enqueue_starts_Suc:
  "Suc k < length xs \<Longrightarrow>
     enqueue_starts c xs ! Suc k = max (enqueue_starts c xs ! k + snd (xs ! k)) (fst (xs ! Suc k))"
proof (induction c xs arbitrary: k rule: enqueue_starts.induct)
  case (1 c)
  then show ?case by simp
next
  case (2 c now d r)
  show ?case
  proof (cases k)
    case 0
    with 2 show ?thesis by (cases r) auto
  next
    case (Suc j)
    with 2 show ?thesis by simp
  qed
qed

lemma enqueue_starts_closed:
  assumes "\<forall>k. Suc k < length xs \<longrightarrow> fst (xs ! Suc k) \<le> enqueue_starts c xs ! k + snd (xs ! k)"
    and "k < length xs"
  shows "enqueue_starts c xs ! k = max c (fst (xs ! 0)) + sum_list (map snd (take k xs))"
  using assms(2)
proof (induction k)
  case 0
  then show ?case by (simp add: enqueue_starts_0)
next
  case (Suc k)
  then have k: "k < length xs" by simp
  have "enqueue_starts c xs ! Suc k = enqueue_starts c xs ! k + snd (xs ! k)"
    using assms(1) Suc.prems by (simp add: enqueue_starts_Suc)
  then show ?case using Suc.IH k by (simp add: take_Suc_conv_app_nth)
qed

text \<open>
  C1 (amended). For audio-carrying messages handled one after the other with no
  interruption, the first unit starts at the maximum of the cursor and the playback
  clock, and each later unit starts at the maximum of the end of the previous unit and
  the clock at its own enqueue: units never overlap, and a gap arises only when the clock
  has passed the cursor. When the clock never passes the cursor, unit \<open>k\<close> starts at the
  first start time plus the durations of the units before it.
\<close>

theorem enqueue_schedule:
  assumes "outputAudioContextRef s \<noteq> None"
    and "\<forall>a \<in> set ms. message_chunk (fst a) \<noteq> None \<and> \<not> interrupted (fst a)"
  shows "let st = scheduled_starts s (run (arrivals ms) s) in
     length st = length ms \<and>
     (ms \<noteq> [] \<longrightarrow> st ! 0 = max (nextAudioStartTimeRef s) (clock_at (ms ! 0))) \<and>
     (\<forall>k. Suc k < length ms \<longrightarrow>
        st ! Suc k = max (st ! k + duration_at (ms ! k)) (clock_at (ms ! Suc k))) \<and>
     ((\<forall>k. Suc k < length ms \<longrightarrow> clock_at (ms ! Suc k) \<le> st ! k + duration_at (ms ! k)) \<longrightarrow>
        (\<forall>k < length ms. st ! k = max (nextAudioStartTimeRef s) (clock_at (ms ! 0)) +
                                   sum_list (map duration_at (take k ms))))"
proof -
  let ?xs = "map (\<lambda>a. (clock_at a, duration_at a)) ms"
  let ?c = "nextAudioStartTimeRef s"
  have st: "scheduled_starts s (run (arrivals ms) s) = enqueue_starts ?c ?xs"
    by (rule scheduled_starts_arrivals [OF assms])
  have len: "length (enqueue_starts ?c ?xs) = length ms"
    by (simp add: enqueue_starts_length)
  have first: "ms \<noteq> [] \<longrightarrow> enqueue_starts ?c ?xs ! 0 = max ?c (clock_at (ms ! 0))"
    by (simp add: enqueue_starts_0)
  have step: "\<forall>k. Suc k < length ms \<longrightarrow>
        enqueue_starts ?c ?xs ! Suc k =
          max (enqueue_starts ?c ?xs ! k + duration_at (ms ! k)) (clock_at (ms ! Suc k))"
    by (simp add: enqueue_starts_Suc)
  have closed: "(\<forall>k. Suc k < length ms \<longrightarrow>
          clock_at (ms ! Suc k) \<le> enqueue_starts ?c ?xs ! k + duration_at (ms ! k)) \<longrightarrow>
        (\<forall>k < length ms. enqueue_starts ?c ?xs ! k =
           max ?c (clock_at (ms ! 0)) + sum_list (map duration_at (take k ms)))"
  proof (intro impI allI)
    fix k
    assume h: "\<forall>k. Suc k < length ms \<longrightarrow>
          clock_at (ms ! Suc k) \<le> enqueue_starts ?c ?xs ! k + duration_at (ms ! k)"
      and k: "k < length ms"
    have "\<forall>k. Suc k < length ?xs \<longrightarrow>
            fst (?xs ! Suc k) \<le> enqueue_starts ?c ?xs ! k + snd (?xs ! k)"
      using h by simp
    moreover have "0 < length ms" using k by (cases ms) simp_all
    ultimately show "enqueue_starts ?c ?xs ! k =
           max ?c (clock_at (ms ! 0)) + sum_list (map duration_at (take k ms))"
      using enqueue_starts_closed [of ?xs ?c k] k by (simp add: take_map o_def)
  qed
  show ?thesis
    unfolding Let_def st using len first step closed by blast
qed

lemma map_index_nth: "i < length ns \<Longrightarrow> map_index f k ns ! i = f (k + i) (ns ! i)"
proof (induction ns arbitrary: k i)
  case Nil
  then show ?case by simp
next
  case (Cons n ns)
  then show ?case by (cases i) auto
qed

lemma map_index_length [simp]: "length (map_index f k ns) = length ns"
  by (induction ns arbitrary: k) auto

lemma stop_sources_length [simp]: "length (stop_sources srcs ns) = length ns"
  by (simp add: stop_sources_def)

lemma stop_sources_nth:
  "i < length ns \<Longrightarrow>
     stop_sources srcs ns ! i = (if i \<in> set srcs then (ns ! i)\<lparr> stopped := True \<rparr> else ns ! i)"
  by (simp add: stop_sources_def map_index_nth)

lemma stop_sources_startTime [simp]:
  "map startTime (stop_sources srcs ns) = map startTime ns"
  by (rule nth_equalityI) (simp_all add: stop_sources_nth)

lemma audio_cases:
  "onmessage_audio m now s = (s', None) \<Longrightarrow>
     (nodes s' = nodes s \<and> audioSourcesRef s' = audioSourcesRef s) \<or>
     (\<exists>n. nodes s' = nodes s @ [n] \<and>
           audioSourcesRef s' = set_add (length (nodes s)) (audioSourcesRef s))"
  by (auto simp: onmessage_audio_def Let_def split: sum.splits option.splits if_splits)

lemma onmessage_starts:
  assumes "message_chunk m = Some b" and "outputAudioContextRef s \<noteq> None"
  shows "scheduled_starts s (fst (onmessage m now dn s)) = [max (nextAudioStartTimeRef s) now]"
proof -
  let ?s2 = "onmessage_outputTranscription m (onmessage_inputTranscription m s)"
  have "outputAudioContextRef ?s2 \<noteq> None" using assms(2) by simp
  from audio_enqueue [OF assms(1) this, of now]
  have "map startTime (nodes (fst (onmessage m now dn s))) =
          map startTime (nodes s) @ [max (nextAudioStartTimeRef s) now]"
    by (simp add: onmessage_def onmessage_interrupted_def stop_all_sources_def)
  then have "drop (length (nodes s)) (map startTime (nodes (fst (onmessage m now dn s)))) =
          [max (nextAudioStartTimeRef s) now]"
    by simp
  then show ?thesis by (simp add: scheduled_starts_def drop_map)
qed

text \<open>
  C2. After a message flagged \<open>interrupted\<close> has been handled, no source is tracked, the
  cursor is 0, every node that was tracked before the message or created by it has been
  stopped, and the next chunk to be enqueued starts at \<open>max 0 now\<close>, which is not before
  the clock reading \<open>now\<close> of that enqueue.
\<close>

theorem interrupt_clears:
  assumes "interrupted m" and "snd (onmessage m now dn s) = None"
  shows "let s' = fst (onmessage m now dn s) in
     audioSourcesRef s' = [] \<and> nextAudioStartTimeRef s' = 0 \<and>
     (\<forall>i < length (nodes s').
        i \<in> set (audioSourcesRef s) \<or> length (nodes s) \<le> i \<longrightarrow> stopped (nodes s' ! i)) \<and>
     (\<forall>m2 now2 dn2 b.
        message_chunk m2 = Some b \<and> outputAudioContextRef s' \<noteq> None \<longrightarrow>
          scheduled_starts s' (fst (onmessage m2 now2 dn2 s')) = [max 0 now2] \<and>
          now2 \<le> max 0 now2)"
proof -
  let ?s2 = "onmessage_outputTranscription m (onmessage_inputTranscription m s)"
  obtain s3 e where a: "onmessage_audio m now ?s2 = (s3, e)" by (cases "onmessage_audio m now ?s2")
  with assms(2) have e: "e = None" by (cases e) (simp_all add: onmessage_def)
  let ?s' = "fst (onmessage m now dn s)"
  have s': "?s' = stop_all_sources (onmessage_turnComplete m dn s3)"
    using a e assms(1) by (simp add: onmessage_def onmessage_interrupted_def)
  have c1: "audioSourcesRef ?s' = []" and c2: "nextAudioStartTimeRef ?s' = 0"
    by (simp_all add: s' stop_all_sources_def)
  have nodes': "nodes ?s' = stop_sources (audioSourcesRef s3) (nodes s3)"
    by (simp add: s' stop_all_sources_def)
  from audio_cases [OF a [unfolded e]]
  have cases: "(nodes s3 = nodes s \<and> audioSourcesRef s3 = audioSourcesRef s) \<or>
     (\<exists>n. nodes s3 = nodes s @ [n] \<and>
           audioSourcesRef s3 = set_add (length (nodes s)) (audioSourcesRef s))"
    by simp
  have c3: "\<forall>i < length (nodes ?s').
        i \<in> set (audioSourcesRef s) \<or> length (nodes s) \<le> i \<longrightarrow> stopped (nodes ?s' ! i)"
  proof (intro allI impI)
    fix i assume i: "i < length (nodes ?s')"
      and t: "i \<in> set (audioSourcesRef s) \<or> length (nodes s) \<le> i"
    have "length (nodes s) \<le> i \<Longrightarrow> nodes s3 = nodes s @ [n] \<Longrightarrow> i = length (nodes s)" for n
      using i by (simp add: nodes')
    then have "i \<in> set (audioSourcesRef s3)"
      using cases i t by (auto simp: nodes' set_add_def)
    then show "stopped (nodes ?s' ! i)"
      using i by (simp add: nodes' stop_sources_nth)
  qed
  have c4: "\<forall>m2 now2 dn2 b.
        message_chunk m2 = Some b \<and> outputAudioContextRef ?s' \<noteq> None \<longrightarrow>
          scheduled_starts ?s' (fst (onmessage m2 now2 dn2 ?s')) = [max 0 now2] \<and>
          now2 \<le> max 0 now2"
    using onmessage_starts [of _ _ ?s'] c2 by auto
  show ?thesis unfolding Let_def using c1 c2 c3 c4 by blast
qed

lemmas handler_defs = run_def click_main_def renderMainButton_def handleStart_def onopen_def
  setStatus_def setErrorMessage_def console_error_def emit_def updateTranscript_def
  updateTranscript_list_def spread_def granted_def denied_def catch_message_def initial_def
  settle_def resume_settled_def promise_state_def

lemma listening_eq:
  "listening = \<lparr> status = LISTENING,
     transcript = [\<lparr> id_turn = 1000, userInput = [], modelOutput = [], isComplete = False \<rparr>],
     errorMessage = None, aiRef = True, sessionPromiseRef = Some 0,
     inputAudioContextRef = Some Running, outputAudioContextRef = Some Running,
     microphoneStreamRef = Some (), scriptProcessorRef = Some (), audioSourcesRef = [],
     nextAudioStartTimeRef = 0, currentInputTranscription = [],
     currentOutputTranscription = [], currentTurnId = 1000, nodes = [],
     promises = [Some Fulfilled], stopping = [],
     effects = [SetStatus CONNECTING, SetErrorMessage None, SetStatus LISTENING] \<rparr>"
  by (simp add: listening_def handler_defs)

lemma zero_chunk:
  "decodeChunk ''AAA='' rate channels =
     Inr \<lparr> channelData = [0], sampleRate = rate, numberOfChannels = channels \<rparr>"
  by (simp add: decodeChunk_def decodeAudioData_def b64_value_def)

lemma message_chunk_zero:
  "message_chunk (audio_message ''AAA='') =
     Some \<lparr> channelData = [0], sampleRate = 24000, numberOfChannels = 1 \<rparr>"
  by (simp add: message_chunk_def audio_message_def no_content_def
        base64EncodedAudioString_def zero_chunk)

lemma two_chunks_ok:
  "\<forall>a \<in> set two_chunks. message_chunk (fst a) \<noteq> None \<and> \<not> interrupted (fst a)"
  by (simp add: two_chunks_def message_chunk_zero) (simp add: audio_message_def no_content_def)

lemma two_chunks_at:
  "clock_at (two_chunks ! 0) = 5" "clock_at (two_chunks ! Suc 0) = 5"
  "duration_at (two_chunks ! 0) = 1 / 24000" "length two_chunks = 2"
  by (simp_all add: two_chunks_def clock_at_def duration_at_def chunk_duration_def
        message_chunk_zero duration_def)

theorem enqueue_schedule_witness:
  "length (scheduled_starts listening (run (arrivals two_chunks) listening)) = 2 \<and>
   scheduled_starts listening (run (arrivals two_chunks) listening) ! 0 = 5 \<and>
   scheduled_starts listening (run (arrivals two_chunks) listening) ! 1 = 5 + 1 / 24000"
proof -
  have h1: "outputAudioContextRef listening \<noteq> None" by (simp add: listening_eq)
  have c: "nextAudioStartTimeRef listening = 0" by (simp add: listening_eq)
  have ne: "two_chunks \<noteq> []" by (simp add: two_chunks_def)
  from enqueue_schedule [OF h1 two_chunks_ok]
  show ?thesis
    using ne by (simp add: Let_def two_chunks_at c)
qed

text \<open>
  The closed form of C1 as stated, \<open>max(t0, d1 + ... + d(k-1))\<close>, fails for the second
  of two one-sample chunks that both arrive at clock 5: it starts at \<open>5 + 1/24000\<close>, not
  at \<open>max 5 (1/24000) = 5\<close>.
\<close>

theorem closed_form_counterexample:
  "scheduled_starts listening (run (arrivals two_chunks) listening) ! 1 \<noteq>
     max (clock_at (two_chunks ! 0)) (sum_list (map duration_at (take 1 two_chunks)))"
proof -
  have h1: "outputAudioContextRef listening \<noteq> None" by (simp add: listening_eq)
  have c: "nextAudioStartTimeRef listening = 0" by (simp add: listening_eq)
  have "scheduled_starts listening (run (arrivals two_chunks) listening) = [5, 5 + 1 / 24000]"
    by (simp add: scheduled_starts_arrivals [OF h1 two_chunks_ok] c)
       (simp add: two_chunks_def clock_at_def duration_at_def chunk_duration_def
          message_chunk_zero duration_def)
  moreover have "max (clock_at (two_chunks ! 0)) (sum_list (map duration_at (take 1 two_chunks))) = 5"
    by (simp add: two_chunks_def clock_at_def duration_at_def chunk_duration_def
          message_chunk_zero duration_def)
  ultimately show ?thesis by simp
qed

lemma playing_eq:
  "playing = listening\<lparr>
     nodes := [\<lparr> buffer = \<lparr> channelData = [0], sampleRate = 24000, numberOfChannels = 1 \<rparr>,
                 startTime = 5, stopped = False \<rparr>,
               \<lparr> buffer = \<lparr> channelData = [0], sampleRate = 24000, numberOfChannels = 1 \<rparr>,
                 startTime = 5 + 1 / 24000, stopped = False \<rparr>],
     audioSourcesRef := [0, 1],
     nextAudioStartTimeRef := 5 + 2 / 24000 \<rparr>"
  by (simp add: playing_def two_chunks_def arrivals_def run_def onmessage_def
      onmessage_inputTranscription_def onmessage_outputTranscription_def
      onmessage_turnComplete_def onmessage_interrupted_def audio_message_def no_content_def
      onmessage_audio_def base64EncodedAudioString_def zero_chunk listening_eq set_add_def
      duration_def)

theorem interrupt_clears_witness:
  "audioSourcesRef (fst (onmessage interrupted_message 6 1003 playing)) = [] \<and>
   nextAudioStartTimeRef (fst (onmessage interrupted_message 6 1003 playing)) = 0 \<and>
   stopped (nodes (fst (onmessage interrupted_message 6 1003 playing)) ! 0) \<and>
   stopped (nodes (fst (onmessage interrupted_message 6 1003 playing)) ! 1) \<and>
   scheduled_starts (fst (onmessage interrupted_message 6 1003 playing))
     (fst (onmessage (audio_message ''AAA='') 7 1004
        (fst (onmessage interrupted_message 6 1003 playing)))) = [7]"
proof -
  have h1: "interrupted interrupted_message"
    by (simp add: interrupted_message_def no_content_def)
  have h2: "snd (onmessage interrupted_message 6 1003 playing) = None"
    by (simp add: onmessage_def onmessage_audio_def base64EncodedAudioString_def
        interrupted_message_def no_content_def)
  let ?s' = "fst (onmessage interrupted_message 6 1003 playing)"
  have len: "length (nodes ?s') = 2"
    by (simp add: onmessage_def onmessage_audio_def base64EncodedAudioString_def
        interrupted_message_def no_content_def onmessage_interrupted_def
        onmessage_inputTranscription_def onmessage_outputTranscription_def
        onmessage_turnComplete_def stop_all_sources_def playing_eq)
  have ctx: "outputAudioContextRef ?s' \<noteq> None"
    by (simp add: onmessage_def onmessage_audio_def base64EncodedAudioString_def
        interrupted_message_def no_content_def onmessage_interrupted_def
        onmessage_inputTranscription_def onmessage_outputTranscription_def
        onmessage_turnComplete_def stop_all_sources_def playing_eq listening_eq)
  have tr: "0 \<in> set (audioSourcesRef playing)" "1 \<in> set (audioSourcesRef playing)"
    by (simp_all add: playing_eq)
  from interrupt_clears [OF h1 h2]
  show ?thesis
    using len ctx tr message_chunk_zero by (auto simp: Let_def)
qed

subsection \<open>Starting\<close>





lemma stopped_while_connecting_eq:
  "stopped_while_connecting = initial\<lparr> status := IDLE,
       transcript := [\<lparr> id_turn = 1000, userInput = [], modelOutput = [],
                        isComplete = False \<rparr>],
       sessionPromiseRef := Some 0,
       inputAudioContextRef := Some Running, outputAudioContextRef := Some Running,
       microphoneStreamRef := Some (), currentTurnId := 1000,
       promises := [None], stopping := [0],
       effects := [SetStatus CONNECTING, SetErrorMessage None, SetStatus IDLE] \<rparr>"
  by (simp add: stopped_while_connecting_def handler_defs handleStop_def handleStop_begin_def)




subsection \<open>Decode failures\<close>

lemma audio_decode_failure:
  assumes "base64EncodedAudioString m = Inr (Some b64)" and "b64 \<noteq> []"
    and "decodeChunk b64 24000 1 = Inl e" and "outputAudioContextRef s \<noteq> None"
  shows "onmessage_audio m now s =
           (s\<lparr> nextAudioStartTimeRef := max (nextAudioStartTimeRef s) now \<rparr>, Some e)"
  using assms by (auto simp: onmessage_audio_def Let_def)

text \<open>
  C7 (amended). When the payload of an audio-data message does not decode, the error is
  a \<open>DecodeError\<close> that leaves the handler uncaught and unlogged. The state it leaves is
  the state after the transcription branches with the cursor raised to
  \<open>max(nextStartTime, now)\<close>: no unit is created or tracked, and Status, session and
  handles are as the transcription branches left them. For a message that carries
  nothing but the audio, the cursor is the only change.
\<close>

theorem decode_failure_aborts:
  assumes "base64EncodedAudioString m = Inr (Some b64)" and "b64 \<noteq> []"
    and "decodeChunk b64 24000 1 = Inl e" and "outputAudioContextRef s \<noteq> None"
  shows "e = DecodeError \<and>
     onmessage m now date_now s =
       ((onmessage_outputTranscription m (onmessage_inputTranscription m s))
          \<lparr> nextAudioStartTimeRef := max (nextAudioStartTimeRef s) now \<rparr>, Some e) \<and>
     (inputTranscription m = None \<and> outputTranscription m = None \<longrightarrow>
        onmessage m now date_now s =
          (s\<lparr> nextAudioStartTimeRef := max (nextAudioStartTimeRef s) now \<rparr>, Some e))"
proof -
  have e: "e = DecodeError"
    using assms(3)
    by (auto simp: decodeChunk_def decodeAudioData_def split: option.splits)
  let ?s2 = "onmessage_outputTranscription m (onmessage_inputTranscription m s)"
  have "outputAudioContextRef ?s2 \<noteq> None" using assms(4) by simp
  from audio_decode_failure [OF assms(1-3) this, of now]
  have m: "onmessage m now date_now s =
       (?s2\<lparr> nextAudioStartTimeRef := max (nextAudioStartTimeRef s) now \<rparr>, Some e)"
    by (simp add: onmessage_def)
  have "inputTranscription m = None \<and> outputTranscription m = None \<longrightarrow> ?s2 = s"
    by (simp add: onmessage_outputTranscription_def onmessage_inputTranscription_def)
  with e m show ?thesis by auto
qed

lemma bad_chunk: "decodeChunk ''!'' rate channels = Inl DecodeError"
  by (simp add: decodeChunk_def)

theorem decode_failure_aborts_witness:
  "onmessage (audio_message ''!'') 5 1001 listening =
     (listening\<lparr> nextAudioStartTimeRef := 5 \<rparr>, Some DecodeError)"
proof -
  have h1: "base64EncodedAudioString (audio_message ''!'') = Inr (Some ''!'')"
    by (simp add: base64EncodedAudioString_def audio_message_def no_content_def)
  have h2: "''!'' \<noteq> []" by simp
  have h3: "decodeChunk ''!'' 24000 1 = Inl DecodeError" by (rule bad_chunk)
  have h4: "outputAudioContextRef listening \<noteq> None" by (simp add: listening_eq)
  have h5: "inputTranscription (audio_message ''!'') = None \<and>
            outputTranscription (audio_message ''!'') = None"
    by (simp add: audio_message_def no_content_def)
  have c: "nextAudioStartTimeRef listening = 0" by (simp add: listening_eq)
  from decode_failure_aborts [OF h1 h2 h3 h4, of 5 1001]
  have "inputTranscription (audio_message ''!'') = None \<and>
        outputTranscription (audio_message ''!'') = None \<longrightarrow>
        onmessage (audio_message ''!'') 5 1001 listening =
          (listening\<lparr> nextAudioStartTimeRef := max (nextAudioStartTimeRef listening) 5 \<rparr>,
           Some DecodeError)"
    by blast
  with h5 c show ?thesis by simp
qed

text \<open>
  C7 as stated fails: for the malformed payload \<open>!\<close> the handler throws the error,
  records nothing, and leaves a state that differs from the one before.
\<close>

theorem decode_failure_counterexample:
  "snd (onmessage (audio_message ''!'') 5 1001 listening) = Some DecodeError \<and>
   effects (fst (onmessage (audio_message ''!'') 5 1001 listening)) = effects listening \<and>
   fst (onmessage (audio_message ''!'') 5 1001 listening) \<noteq> listening"
proof -
  have h1: "base64EncodedAudioString (audio_message ''!'') = Inr (Some ''!'')"
    by (simp add: base64EncodedAudioString_def audio_message_def no_content_def)
  have h4: "outputAudioContextRef listening \<noteq> None" by (simp add: listening_eq)
  have s2: "onmessage_outputTranscription (audio_message ''!'')
              (onmessage_inputTranscription (audio_message ''!'') listening) = listening"
    by (simp add: onmessage_outputTranscription_def onmessage_inputTranscription_def
          audio_message_def no_content_def)
  have "onmessage (audio_message ''!'') 5 1001 listening =
          (listening\<lparr> nextAudioStartTimeRef := max (nextAudioStartTimeRef listening) 5 \<rparr>,
           Some DecodeError)"
    by (simp add: onmessage_def s2 audio_decode_failure [OF h1 _ bad_chunk h4])
  moreover have "nextAudioStartTimeRef listening = 0" by (simp add: listening_eq)
  moreover have "listening\<lparr> nextAudioStartTimeRef := 5 \<rparr> \<noteq> listening"
  proof
    assume "listening\<lparr> nextAudioStartTimeRef := 5 \<rparr> = listening"
    then have "nextAudioStartTimeRef (listening\<lparr> nextAudioStartTimeRef := 5 \<rparr>) =
                 nextAudioStartTimeRef listening" by simp
    then show False by (simp add: listening_eq)
  qed
  ultimately show ?thesis by simp
qed

subsection \<open>Transcript entries\<close>










lemma onmessage_status:
  "status (fst (onmessage m now date_now s)) =
     (case outputTranscription m of None \<Rightarrow> status s | Some _ \<Rightarrow> SPEAKING)"
proof -
  have a: "status (fst (onmessage_audio m now s1)) = status s1" for s1
    by (auto simp: onmessage_audio_def Let_def split: sum.splits option.splits)
  have i: "status (onmessage_interrupted m s1) = status s1" for s1
    by (simp add: onmessage_interrupted_def stop_all_sources_def)
  have o: "status (onmessage_outputTranscription m s1) =
             (case outputTranscription m of None \<Rightarrow> status s1 | Some _ \<Rightarrow> SPEAKING)" for s1
    by (simp add: onmessage_outputTranscription_def Let_def setStatus_def split: option.splits)
  let ?s2 = "onmessage_outputTranscription m (onmessage_inputTranscription m s)"
  obtain s3 e where s3: "onmessage_audio m now ?s2 = (s3, e)"
    by (cases "onmessage_audio m now ?s2")
  then have "status s3 = status ?s2" using a [of ?s2] by simp
  moreover have "status (fst (onmessage m now date_now s)) = status s3"
    using s3 by (cases e) (simp_all add: onmessage_def i)
  ultimately show ?thesis by (simp add: o split: option.splits)
qed

subsection \<open>Status transitions\<close>

lemma status_writes_append: "status_writes (xs @ ys) = status_writes xs @ status_writes ys"
  by (induction xs rule: status_writes.induct) auto

lemma quietI:
  "(\<And>s. \<exists>ws. effects (f s) = effects s @ ws \<and> status_writes ws = [] \<and> status (f s) = status s)
     \<Longrightarrow> quiet f"
  by (simp add: quiet_def)

lemma quiet_comp: "quiet f \<Longrightarrow> quiet g \<Longrightarrow> quiet (\<lambda>s. g (f s))"
  unfolding quiet_def
proof
  fix s
  assume f: "\<forall>s. \<exists>ws. effects (f s) = effects s @ ws \<and> status_writes ws = [] \<and>
                       status (f s) = status s"
    and g: "\<forall>s. \<exists>ws. effects (g s) = effects s @ ws \<and> status_writes ws = [] \<and>
                       status (g s) = status s"
  from f obtain w1 where w1: "effects (f s) = effects s @ w1" "status_writes w1 = []"
    "status (f s) = status s" by blast
  from g obtain w2 where w2: "effects (g (f s)) = effects (f s) @ w2" "status_writes w2 = []"
    "status (g (f s)) = status (f s)" by blast
  show "\<exists>ws. effects (g (f s)) = effects s @ ws \<and> status_writes ws = [] \<and>
             status (g (f s)) = status s"
    by (rule exI [of _ "w1 @ w2"]) (simp add: w1 w2 status_writes_append)
qed

lemma quiet_close_session: "quiet (close_session out)"
  by (rule quietI)
     (simp add: close_session_def emit_def console_error_def split: outcome.splits)

lemma quiet_release_processor: "quiet release_processor"
  by (rule quietI) (simp add: release_processor_def emit_def split: option.splits)

lemma quiet_release_microphone: "quiet release_microphone"
  by (rule quietI) (simp add: release_microphone_def emit_def split: option.splits)

lemma quiet_release_input_context: "quiet release_input_context"
  by (rule quietI) (simp add: release_input_context_def emit_def split: option.splits)

lemma quiet_release_output_context: "quiet release_output_context"
  by (rule quietI) (simp add: release_output_context_def emit_def split: option.splits)

lemma quiet_stop_all_sources: "quiet stop_all_sources"
  by (rule quietI) (simp add: stop_all_sources_def)

lemma quiet_handleStop_rest: "quiet handleStop_rest"
proof -
  note 1 = quiet_comp [OF quiet_release_processor quiet_release_microphone]
  note 2 = quiet_comp [OF 1 quiet_release_input_context]
  note 3 = quiet_comp [OF 2 quiet_release_output_context]
  note 4 = quiet_comp [OF 3 quiet_stop_all_sources]
  have "handleStop_rest = (\<lambda>s. stop_all_sources (release_output_context
          (release_input_context (release_microphone (release_processor s)))))"
    by (rule ext) (simp add: handleStop_rest_def)
  with 4 show ?thesis by simp
qed

lemma quiet_handleStop_resume: "quiet (handleStop_resume out)"
proof -
  have "handleStop_resume out = (\<lambda>s. handleStop_rest (close_session out s))"
    by (rule ext) (simp add: handleStop_resume_def)
  with quiet_comp [OF quiet_close_session [of out] quiet_handleStop_rest]
  show ?thesis by simp
qed

lemma resume_each_writes:
  "\<exists>ws. effects (resume_each ps s) = effects s @ ws \<and> status_writes ws = []"
proof (induction ps arbitrary: s)
  case Nil
  show ?case by simp
next
  case (Cons p ps)
  show ?case
  proof (cases "promise_state s p")
    case None
    with Cons.IH [of s] show ?thesis by simp
  next
    case (Some out)
    from quiet_handleStop_resume [of out] obtain w1 where
      w1: "effects (handleStop_resume out s) = effects s @ w1" "status_writes w1 = []"
      unfolding quiet_def by blast
    from Cons.IH [of "handleStop_resume out s"] obtain w2 where
      w2: "effects (resume_each ps (handleStop_resume out s)) =
             effects (handleStop_resume out s) @ w2" "status_writes w2 = []"
      by blast
    show ?thesis
      by (rule exI [of _ "w1 @ w2"]) (simp add: Some w1 w2 status_writes_append)
  qed
qed

lemma quiet_resume_settled: "quiet resume_settled"
proof (rule quietI)
  fix s
  from resume_each_writes [of "stopping s" s] obtain ws where
    "effects (resume_each (stopping s) s) = effects s @ ws" "status_writes ws = []"
    by blast
  then show "\<exists>ws. effects (resume_settled s) = effects s @ ws \<and> status_writes ws = [] \<and>
                  status (resume_settled s) = status s"
    by (intro exI [of _ ws]) (simp add: resume_settled_frame, simp add: resume_settled_def)
qed

lemma settle_writes:
  "\<exists>ws. effects (settle p out s) = effects s @ ws \<and> status_writes ws = [] \<and>
        status (settle p out s) = status s"
proof (cases "p < length (promises s) \<and> promises s ! p = None")
  case True
  let ?s1 = "s\<lparr> promises := (promises s)[p := Some out] \<rparr>"
  from quiet_resume_settled obtain ws where
    "effects (resume_settled ?s1) = effects ?s1 @ ws" "status_writes ws = []"
    "status (resume_settled ?s1) = status ?s1"
    unfolding quiet_def by blast
  with True show ?thesis by (intro exI [of _ ws]) (simp add: settle_def)
next
  case False
  then show ?thesis by (intro exI [of _ "[]"]) (auto simp: settle_def)
qed

lemma handleStop_begin_writes:
  "\<exists>ws. effects (handleStop_begin s) = effects s @ ws \<and> status_writes ws = [IDLE]"
proof (cases "sessionPromiseRef s")
  case None
  from quiet_handleStop_rest obtain w where
    "effects (handleStop_rest (setStatus IDLE s)) = effects (setStatus IDLE s) @ w"
    "status_writes w = []"
    unfolding quiet_def by blast
  with None show ?thesis
    by (intro exI [of _ "SetStatus IDLE # w"])
       (simp add: handleStop_begin_def Let_def setStatus_def)
next
  case (Some p)
  then show ?thesis
    by (intro exI [of _ "[SetStatus IDLE]"])
       (simp add: handleStop_begin_def Let_def setStatus_def)
qed

lemma handleStop_writes:
  "\<exists>ws. effects (handleStop s) = effects s @ ws \<and> status_writes ws = [IDLE] \<and>
        status (handleStop s) = IDLE"
proof -
  from handleStop_begin_writes [of s] obtain w1 where
    w1: "effects (handleStop_begin s) = effects s @ w1" "status_writes w1 = [IDLE]"
    by blast
  from quiet_resume_settled obtain w2 where
    w2: "effects (resume_settled (handleStop_begin s)) = effects (handleStop_begin s) @ w2"
    "status_writes w2 = []"
    unfolding quiet_def by blast
  show ?thesis
    by (rule exI [of _ "w1 @ w2"])
       (simp add: handleStop_def w1 w2 status_writes_append handleStop_frame [unfolded handleStop_def])
qed

lemma handleStart_writes:
  "\<exists>ws. effects (handleStart env s) = effects s @ ws \<and>
        (status_writes ws = [CONNECTING] \<and> status (handleStart env s) = CONNECTING \<or>
         status_writes ws = [CONNECTING, ERROR] \<and> status (handleStart env s) = ERROR)"
  by (simp add: handleStart_def Let_def setStatus_def setErrorMessage_def console_error_def
        emit_def updateTranscript_def split: option.splits)

lemma onopen_writes:
  "effects (fst (onopen s)) = effects s @ [SetStatus LISTENING] \<and>
   status (fst (onopen s)) = LISTENING"
  by (simp add: onopen_def Let_def setStatus_def split: option.splits)

lemma onmessage_effects:
  "effects (fst (onmessage m now date_now s)) =
     effects s @ (case outputTranscription m of None \<Rightarrow> [] | Some _ \<Rightarrow> [SetStatus SPEAKING])"
proof -
  have a: "effects (fst (onmessage_audio m now s1)) = effects s1" for s1
    by (auto simp: onmessage_audio_def Let_def split: sum.splits option.splits)
  have i: "effects (onmessage_interrupted m s1) = effects s1" for s1
    by (simp add: onmessage_interrupted_def stop_all_sources_def)
  have o: "effects (onmessage_outputTranscription m s1) =
     effects s1 @ (case outputTranscription m of None \<Rightarrow> [] | Some _ \<Rightarrow> [SetStatus SPEAKING])"
    for s1
    by (simp add: onmessage_outputTranscription_def Let_def setStatus_def split: option.splits)
  let ?s2 = "onmessage_outputTranscription m (onmessage_inputTranscription m s)"
  obtain s3 e where s3: "onmessage_audio m now ?s2 = (s3, e)"
    by (cases "onmessage_audio m now ?s2")
  then have "effects s3 = effects ?s2" using a [of ?s2] by simp
  moreover have "effects (fst (onmessage m now date_now s)) = effects s3"
    using s3 by (cases e) (simp_all add: onmessage_def i)
  ultimately show ?thesis by (simp add: o)
qed

lemma onerror_writes:
  "\<exists>ws. effects (onerror s) = effects s @ ws \<and> status_writes ws = [ERROR, IDLE] \<and>
        status (onerror s) = IDLE"
proof -
  let ?s1 = "setStatus ERROR (setErrorMessage (Some ''An error occurred with the connection.'')
               (console_error ''Session error'' s))"
  from handleStop_writes [of ?s1] obtain w where w:
    "effects (handleStop ?s1) = effects ?s1 @ w" "status_writes w = [IDLE]" by blast
  show ?thesis
    by (rule exI [of _ "[ConsoleError ''Session error'',
                         SetErrorMessage (Some ''An error occurred with the connection.''),
                         SetStatus ERROR] @ w"])
       (simp add: onerror_def w handleStop_frame status_writes_append,
        simp add: setStatus_def setErrorMessage_def console_error_def emit_def)
qed

lemma ended_writes:
  "(effects (ended n s) = effects s \<and> status (ended n s) = status s) \<or>
   (effects (ended n s) = effects s @ [SetStatus LISTENING] \<and> status (ended n s) = LISTENING)"
  by (simp add: ended_def Let_def setStatus_def)

lemma dispatch_path:
  assumes "in_phase e s"
  shows "\<exists>ws. effects (dispatch e s) = effects s @ ws \<and>
          status (dispatch e s) = last (status s # status_writes ws) \<and>
          path_ok code_edge (status s # status_writes ws)"
proof (cases e)
  case (ClickMain env)
  show ?thesis
  proof (cases "status s = IDLE \<or> status s = ERROR")
    case True
    from handleStart_writes [of env s] obtain ws where
      "effects (handleStart env s) = effects s @ ws"
      "status_writes ws = [CONNECTING] \<and> status (handleStart env s) = CONNECTING \<or>
       status_writes ws = [CONNECTING, ERROR] \<and> status (handleStart env s) = ERROR"
      by blast
    with True show ?thesis
      unfolding ClickMain
      by (intro exI [of _ ws])
         (auto simp: click_main_def renderMainButton_def code_edge_def spec_edge_def)
  next
    case False
    from handleStop_writes [of s] obtain ws where
      "effects (handleStop s) = effects s @ ws" "status_writes ws = [IDLE]"
      "status (handleStop s) = IDLE"
      by blast
    with False show ?thesis
      unfolding ClickMain
      by (intro exI [of _ ws])
         (auto simp: click_main_def renderMainButton_def code_edge_def spec_edge_def)
  qed
next
  case OnOpen
  with assms onopen_writes [of s] show ?thesis
    by (intro exI [of _ "[SetStatus LISTENING]"]) (simp add: code_edge_def spec_edge_def)
next
  case (OnMessage m now date_now)
  with assms show ?thesis
    by (intro exI [of _ "case outputTranscription m of None \<Rightarrow> []
                         | Some _ \<Rightarrow> [SetStatus SPEAKING]"])
       (auto simp: onmessage_effects onmessage_status code_edge_def spec_edge_def
             split: option.splits)
next
  case OnError
  from onerror_writes [of s] obtain ws where
    "effects (onerror s) = effects s @ ws" "status_writes ws = [ERROR, IDLE]"
    "status (onerror s) = IDLE"
    by blast
  then show ?thesis
    unfolding OnError
    by (intro exI [of _ ws]) (simp add: code_edge_def spec_edge_def)
next
  case OnClose
  show ?thesis
    unfolding OnClose
    by (intro exI [of _ "[ConsoleLog ''Session closed'']"])
       (simp add: onclose_def console_log_def emit_def)
next
  case (Ended n)
  from ended_writes [of n s] show ?thesis
  proof
    assume "effects (ended n s) = effects s \<and> status (ended n s) = status s"
    then show ?thesis unfolding Ended by (intro exI [of _ "[]"]) simp
  next
    assume "effects (ended n s) = effects s @ [SetStatus LISTENING] \<and>
            status (ended n s) = LISTENING"
    with assms Ended show ?thesis
      by (intro exI [of _ "[SetStatus LISTENING]"])
         (auto simp: code_edge_def spec_edge_def)
  qed
next
  case (Settle p out)
  from settle_writes [of p out s] obtain ws where
    "effects (settle p out s) = effects s @ ws" "status_writes ws = []"
    "status (settle p out s) = status s"
    by blast
  then show ?thesis unfolding Settle by (intro exI [of _ ws]) simp
qed

lemma path_ok_append:
  "path_ok E (a # xs) \<Longrightarrow> path_ok E (last (a # xs) # ys) \<Longrightarrow> path_ok E (a # xs @ ys)"
proof (induction xs arbitrary: a)
  case Nil
  then show ?case by simp
next
  case (Cons x xs)
  then show ?case by simp
qed

lemma run_Cons: "run (e # es) s = run es (dispatch e s)"
  by (simp add: run_def)

lemma run_path:
  "phased evs s \<Longrightarrow>
     \<exists>ws. effects (run evs s) = effects s @ ws \<and>
          status (run evs s) = last (status s # status_writes ws) \<and>
          path_ok code_edge (status s # status_writes ws)"
proof (induction evs arbitrary: s)
  case Nil
  show ?case by (intro exI [of _ "[]"]) (simp add: run_def)
next
  case (Cons e es)
  from Cons.prems have ph: "in_phase e s" "phased es (dispatch e s)" by simp_all
  from dispatch_path [OF ph(1)] obtain w1 where w1:
    "effects (dispatch e s) = effects s @ w1"
    "status (dispatch e s) = last (status s # status_writes w1)"
    "path_ok code_edge (status s # status_writes w1)" by blast
  from Cons.IH [OF ph(2)] obtain w2 where w2:
    "effects (run es (dispatch e s)) = effects (dispatch e s) @ w2"
    "status (run es (dispatch e s)) = last (status (dispatch e s) # status_writes w2)"
    "path_ok code_edge (status (dispatch e s) # status_writes w2)" by blast
  have p: "path_ok code_edge (status s # status_writes w1 @ status_writes w2)"
    using w1(3) w2(3) unfolding w1(2) by (rule path_ok_append)
  have l: "last (status s # status_writes w1 @ status_writes w2) =
           last (last (status s # status_writes w1) # status_writes w2)"
    by simp
  show ?case
    by (intro exI [of _ "w1 @ w2"])
       (simp only: run_Cons w2 w1 status_writes_append append_assoc p l simp_thms)
qed

text \<open>
  C3 (amended). In every run in which the session callbacks arrive in the phase they
  belong to, Status moves only along Idle to Connecting, Error to Connecting, Connecting
  to Listening, Connecting to Error, Listening to Speaking, Speaking to Listening, any to
  Idle and any to Error.
\<close>

theorem status_moves_along_edges:
  assumes "phased evs s"
  shows "path_ok code_edge (status_history s (run evs s))"
proof -
  from run_path [OF assms] obtain ws where
    "effects (run evs s) = effects s @ ws" "path_ok code_edge (status s # status_writes ws)"
    by blast
  then show ?thesis by (simp add: status_history_def)
qed

lemmas message_defs = onmessage_def onmessage_inputTranscription_def
  onmessage_outputTranscription_def onmessage_audio_def onmessage_turnComplete_def
  onmessage_interrupted_def base64EncodedAudioString_def no_content_def audio_message_def
  input_message_def output_message_def turnComplete_message_def interrupted_message_def

lemma restart_after_error:
  "run [ClickMain (denied 1000), ClickMain (granted 2000)] initial =
     initial\<lparr> status := CONNECTING,
       transcript := [\<lparr> id_turn = 2000, userInput = [], modelOutput = [],
                        isComplete = False \<rparr>],
       sessionPromiseRef := Some 0,
       inputAudioContextRef := Some Running, outputAudioContextRef := Some Running,
       microphoneStreamRef := Some (), currentTurnId := 2000, promises := [None],
       effects := [SetStatus CONNECTING, SetErrorMessage None,
                   ConsoleError ''Failed to start session:'',
                   SetErrorMessage (Some ''Microphone access was denied. Please allow microphone access in your browser settings.''),
                   SetStatus ERROR, SetStatus CONNECTING, SetErrorMessage None] \<rparr>"
  by (simp add: handler_defs)

theorem status_moves_along_edges_witness:
  "path_ok code_edge
     (status_history initial
        (run [ClickMain (denied 1000), ClickMain (granted 2000), OnOpen,
              OnMessage (output_message ''Bonjour'') 0 2001, OnError] initial))"
proof -
  let ?s2 = "run [ClickMain (denied 1000), ClickMain (granted 2000)] initial"
  have s2: "status ?s2 = CONNECTING" by (simp add: restart_after_error)
  have s2': "dispatch (ClickMain (granted 2000)) (dispatch (ClickMain (denied 1000)) initial)
              = ?s2"
    by (simp add: run_def)
  have s3: "status (dispatch OnOpen ?s2) = LISTENING"
    by (simp add: onopen_writes)
  have "phased [ClickMain (denied 1000), ClickMain (granted 2000), OnOpen,
              OnMessage (output_message ''Bonjour'') 0 2001, OnError] initial"
    by (simp add: s2' s2 s3 del: dispatch.simps)
  then show ?thesis by (rule status_moves_along_edges)
qed

text \<open>
  C3 as stated fails: after a start that ends in Error (microphone access denied), the
  main button offers Start again, and the click moves Status from Error to Connecting.
\<close>

theorem error_to_connecting_counterexample:
  "status_history initial (run [ClickMain (denied 1000), ClickMain (granted 2000)] initial) =
     [IDLE, CONNECTING, ERROR, CONNECTING] \<and>
   \<not> path_ok spec_edge
      (status_history initial (run [ClickMain (denied 1000), ClickMain (granted 2000)] initial))"
proof -
  have "status_history initial (run [ClickMain (denied 1000), ClickMain (granted 2000)] initial) =
     [IDLE, CONNECTING, ERROR, CONNECTING]"
    unfolding restart_after_error by (simp add: status_history_def initial_def)
  then show ?thesis by (simp add: spec_edge_def)
qed

subsection \<open>Turn ids\<close>


























subsection \<open>Codec round trip\<close>

lemma b64_value_char: "n < 64 \<Longrightarrow> b64_value (b64_char n) = Some n"
  by (auto simp: b64_value_def b64_char_def Let_def of_char_of)

lemma b64_value_pad: "b64_value (CHR ''='') = None"
  by (simp add: b64_value_def)

lemma sextets_first_byte: fixes x y z :: nat assumes "x < 256" "y < 256"
  shows "(x div 4) * 4 + ((x mod 4) * 16 + y div 16) div 16 = x"
proof -
  have "y div 16 < 16" using assms by simp
  then have "((x mod 4) * 16 + y div 16) div 16 = x mod 4" by simp
  then show ?thesis by simp
qed

lemma sextets_second_byte: fixes y z :: nat assumes "y < 256" "z < 256"
  shows "(((x mod 4) * 16 + y div 16) mod 16) * 16 + ((y mod 16) * 4 + z div 64) div 4 = y"
proof -
  have a: "y div 16 < 16" using assms by simp
  then have 1: "((x mod 4) * 16 + y div 16) mod 16 = y div 16" by simp
  have "z div 64 < 4" using assms by simp
  then have 2: "((y mod 16) * 4 + z div 64) div 4 = y mod 16" by simp
  show ?thesis unfolding 1 2 by simp
qed

lemma sextets_third_byte: fixes z :: nat assumes "z < 256"
  shows "(((y mod 16) * 4 + z div 64) mod 4) * 64 + z mod 64 = z"
proof -
  have "z div 64 < 4" using assms by simp
  then have 1: "((y mod 16) * 4 + z div 64) mod 4 = z div 64" by simp
  show ?thesis unfolding 1 by simp
qed

lemma sextets_bound: fixes x y z :: nat assumes "x < 256" "y < 256" "z < 256"
  shows "x div 4 < 64" "(x mod 4) * 16 + y div 16 < 64"
    "(y mod 16) * 4 + z div 64 < 64" "z mod 64 < 64" "(x mod 4) * 16 < 64" "(y mod 16) * 4 < 64"
  using assms by simp_all (arith+)?

lemma b64_char_not_pad: "n < 64 \<Longrightarrow> b64_char n \<noteq> CHR ''=''"
  using b64_value_char [of n] b64_value_pad by auto

lemma byte_bound: "unat (a :: byte) < 256"
  using unsigned_less [of a, where ?'a = nat] by simp

lemma decode_pad2:
  assumes "b64_value c1 = Some p" and "b64_value c2 = Some q"
  shows "decode [c1, c2, CHR ''='', CHR ''=''] = Some [of_nat (p * 4 + q div 16)]"
  using assms by (simp del: of_nat_add of_nat_mult)

lemma decode_pad1:
  assumes "b64_value c1 = Some p" and "b64_value c2 = Some q" and "b64_value c3 = Some u"
  shows "decode [c1, c2, c3, CHR ''=''] =
           Some [of_nat (p * 4 + q div 16), of_nat ((q mod 16) * 16 + u div 4)]"
proof -
  have "c3 \<noteq> CHR ''=''" using assms(3) b64_value_pad by auto
  then show ?thesis using assms by (simp del: of_nat_add of_nat_mult)
qed

lemma decode_group:
  assumes "b64_value c1 = Some p" and "b64_value c2 = Some q" and "b64_value c3 = Some u"
    and "b64_value c4 = Some v"
  shows "decode (c1 # c2 # c3 # c4 # r) =
           map_option (\<lambda>bs. of_nat (p * 4 + q div 16) # of_nat ((q mod 16) * 16 + u div 4) #
                            of_nat ((u mod 4) * 64 + v) # bs) (decode r)"
proof -
  have "c3 \<noteq> CHR ''=''" "c4 \<noteq> CHR ''=''" using assms(3,4) b64_value_pad by auto
  then show ?thesis using assms by (simp del: of_nat_add of_nat_mult)
qed

lemma decode_encode: "decode (encode bs) = Some bs"
proof (induction bs rule: encode.induct)
  case 1
  show ?case by simp
next
  case (2 a)
  note b = byte_bound [of a]
  have v: "b64_value (b64_char (unat a div 4)) = Some (unat a div 4)"
    "b64_value (b64_char ((unat a mod 4) * 16)) = Some ((unat a mod 4) * 16)"
    using sextets_bound [OF b b b] by (simp_all add: b64_value_char)
  have e1: "(unat a div 4) * 4 + ((unat a mod 4) * 16) div 16 = unat a"
    using sextets_first_byte [OF b, of 0] by simp
  have w1: "(of_nat ((unat a div 4) * 4 + ((unat a mod 4) * 16) div 16) :: byte) = a"
    unfolding e1 by simp
  show ?case by (simp only: encode.simps decode_pad2 [OF v] w1)
next
  case (3 a b)
  note ba = byte_bound [of a] and bb = byte_bound [of b]
  have v: "b64_value (b64_char (unat a div 4)) = Some (unat a div 4)"
    "b64_value (b64_char ((unat a mod 4) * 16 + unat b div 16)) =
       Some ((unat a mod 4) * 16 + unat b div 16)"
    "b64_value (b64_char ((unat b mod 16) * 4)) = Some ((unat b mod 16) * 4)"
    using sextets_bound [OF ba bb bb] by (simp_all add: b64_value_char)
  have e1: "(unat a div 4) * 4 + ((unat a mod 4) * 16 + unat b div 16) div 16 = unat a"
    by (rule sextets_first_byte [OF ba bb])
  have e2: "(((unat a mod 4) * 16 + unat b div 16) mod 16) * 16 + ((unat b mod 16) * 4) div 4
              = unat b"
    using sextets_second_byte [OF bb, of 0 "unat a"] by simp
  have w1: "(of_nat ((unat a div 4) * 4 + ((unat a mod 4) * 16 + unat b div 16) div 16) :: byte)
              = a"
    unfolding e1 by simp
  have w2: "(of_nat ((((unat a mod 4) * 16 + unat b div 16) mod 16) * 16 +
              ((unat b mod 16) * 4) div 4) :: byte) = b"
    unfolding e2 by simp
  show ?case by (simp only: encode.simps decode_pad1 [OF v] w1 w2)
next
  case (4 a b c r)
  note ba = byte_bound [of a] and bb = byte_bound [of b] and bc = byte_bound [of c]
  have v: "b64_value (b64_char (unat a div 4)) = Some (unat a div 4)"
    "b64_value (b64_char ((unat a mod 4) * 16 + unat b div 16)) =
       Some ((unat a mod 4) * 16 + unat b div 16)"
    "b64_value (b64_char ((unat b mod 16) * 4 + unat c div 64)) =
       Some ((unat b mod 16) * 4 + unat c div 64)"
    "b64_value (b64_char (unat c mod 64)) = Some (unat c mod 64)"
    using sextets_bound [OF ba bb bc] by (simp_all add: b64_value_char)
  have e1: "(unat a div 4) * 4 + ((unat a mod 4) * 16 + unat b div 16) div 16 = unat a"
    by (rule sextets_first_byte [OF ba bb])
  have e2: "(((unat a mod 4) * 16 + unat b div 16) mod 16) * 16 +
              ((unat b mod 16) * 4 + unat c div 64) div 4 = unat b"
    by (rule sextets_second_byte [OF bb bc])
  have e3: "(((unat b mod 16) * 4 + unat c div 64) mod 4) * 64 + unat c mod 64 = unat c"
    by (rule sextets_third_byte [OF bc])
  have w1: "(of_nat ((unat a div 4) * 4 + ((unat a mod 4) * 16 + unat b div 16) div 16) :: byte)
              = a"
    unfolding e1 by simp
  have w2: "(of_nat ((((unat a mod 4) * 16 + unat b div 16) mod 16) * 16 +
              ((unat b mod 16) * 4 + unat c div 64) div 4) :: byte) = b"
    unfolding e2 by simp
  have w3: "(of_nat ((((unat b mod 16) * 4 + unat c div 64) mod 4) * 64 + unat c mod 64) :: byte)
              = c"
    unfolding e3 by simp
  show ?case
    by (simp only: encode.simps decode_group [OF v] "4.IH" option.map w1 w2 w3)
qed

lemma int16_bytes_inverse:
  "int16_of_bytes (int16_bytes w @ r) = map_option (\<lambda>ws. w # ws) (int16_of_bytes r)"
proof -
  have b: "unat w < 65536" using unsigned_less [of w, where ?'a = nat] by simp
  then have d: "unat w div 256 < 256" by simp
  have lo: "unat (of_nat (unat w mod 256) :: byte) = unat w mod 256"
    by (simp add: unat_of_nat)
  have hi: "unat (of_nat (unat w div 256) :: byte) = unat w div 256"
    using d by (simp add: unat_of_nat)
  have e: "unat w mod 256 + 256 * (unat w div 256) = unat w" by simp
  have "(of_nat (unat w mod 256 + 256 * (unat w div 256)) :: 16 word) = w"
    unfolding e by simp
  then show ?thesis by (simp add: int16_bytes_def lo hi del: of_nat_add of_nat_mult)
qed

lemma int16_of_buffer_bytes: "int16_of_bytes (buffer_bytes ws) = Some ws"
proof (induction ws)
  case Nil
  show ?case by (simp add: buffer_bytes_def)
next
  case (Cons w ws)
  have "buffer_bytes (w # ws) = int16_bytes w @ buffer_bytes ws"
    by (simp add: buffer_bytes_def)
  then show ?case by (simp add: int16_bytes_inverse Cons.IH)
qed

lemma sint_to_int16:
  assumes "- 32768 \<le> y" and "y < 32768"
  shows "sint (to_int16 y) = (if y < 0 then \<lceil>y\<rceil> else \<lfloor>y\<rfloor>)"
proof -
  let ?t = "if y < 0 then \<lceil>y\<rceil> else \<lfloor>y\<rfloor>"
  have lo: "- 32768 \<le> ?t" using assms(1) by (auto simp: le_ceiling_iff le_floor_iff)
  have hi: "?t < 32768" using assms(2) by (auto simp: ceiling_less_iff floor_less_iff)
  have "sint (word_of_int ?t :: 16 word) = signed_take_bit 15 ?t"
    by (simp add: sint_sbintrunc')
  also have "\<dots> = ?t"
    using lo hi by (intro signed_take_bit_int_eq_self) simp_all
  finally show ?thesis by (simp add: to_int16_def)
qed

lemma quantization_error:
  fixes x :: real
  assumes "- 1 \<le> x" and "x < 1"
  shows "\<bar>real_of_int (sint (to_int16 (x * 32768))) / 32768 - x\<bar> < 1 / 32768"
proof -
  let ?y = "x * 32768"
  have b: "- 32768 \<le> ?y" "?y < 32768" using assms by simp_all
  let ?t = "if ?y < 0 then \<lceil>?y\<rceil> else \<lfloor>?y\<rfloor>"
  have "\<bar>real_of_int ?t - ?y\<bar> < 1" by (auto; linarith)
  then have "\<bar>real_of_int ?t / 32768 - x\<bar> < 1 / 32768" by (simp add: field_simps abs_if split: if_splits)
  then show ?thesis unfolding sint_to_int16 [OF b] by simp
qed

lemma round_trip_eq:
  "decodeChunk (encodeFrame s) rate channels =
     Inr \<lparr> channelData = map quantize s, sampleRate = rate, numberOfChannels = channels \<rparr>"
  by (simp add: decodeChunk_def encodeFrame_def onaudioprocess_def decode_encode
        decodeAudioData_def int16_of_buffer_bytes quantize_def o_def)

text \<open>
  C6 (amended). Decoding an encoded frame yields, sample by sample, the quantized
  sample; for a sample \<open>x\<close> with \<open>-1 \<le> x < 1\<close> the quantized sample differs from \<open>x\<close> by
  less than \<open>1/32768\<close>.
\<close>

theorem codec_round_trip:
  "decodeChunk (encodeFrame s) rate channels =
     Inr \<lparr> channelData = map quantize s, sampleRate = rate, numberOfChannels = channels \<rparr> \<and>
   (\<forall>i < length s. - 1 \<le> s ! i \<and> s ! i < 1 \<longrightarrow>
      \<bar>map quantize s ! i - s ! i\<bar> < 1 / 32768)"
  using quantization_error by (simp add: round_trip_eq quantize_def)

theorem codec_round_trip_witness:
  "decodeChunk (encodeFrame [1 / 2, - 1, 1 / 3]) 24000 1 =
     Inr \<lparr> channelData = map quantize [1 / 2, - 1, 1 / 3], sampleRate = 24000,
           numberOfChannels = 1 \<rparr> \<and>
   \<bar>map quantize [1 / 2, - 1, 1 / 3] ! 2 - 1 / 3\<bar> < 1 / 32768"
proof -
  from codec_round_trip [of "[1 / 2, - 1, 1 / 3]" 24000 1]
  have a: "decodeChunk (encodeFrame [1 / 2, - 1, 1 / 3]) 24000 1 =
     Inr \<lparr> channelData = map quantize [1 / 2, - 1, 1 / 3], sampleRate = 24000,
           numberOfChannels = 1 \<rparr>"
    and b: "\<forall>i < length [1 / 2, - 1, 1 / 3 :: real].
      - 1 \<le> [1 / 2, - 1, 1 / 3 :: real] ! i \<and> [1 / 2, - 1, 1 / 3 :: real] ! i < 1 \<longrightarrow>
      \<bar>map quantize [1 / 2, - 1, 1 / 3] ! i - [1 / 2, - 1, 1 / 3] ! i\<bar> < 1 / 32768"
    by blast+
  from b [rule_format, of 2]
  have "\<bar>map quantize [1 / 2, - 1, 1 / 3] ! 2 - 1 / 3\<bar> < 1 / 32768" by simp
  with a show ?thesis by simp
qed

text \<open>
  C6 as stated fails at the sample 1.0, which is in \<open>[-1, 1]\<close>: scaled to 32768 it wraps
  to -32768 in the 16-bit element and comes back as -1.0, at distance 2 from the sample.
\<close>

theorem full_scale_counterexample:
  "decodeChunk (encodeFrame [1]) 24000 1 =
     Inr \<lparr> channelData = [- 1], sampleRate = 24000, numberOfChannels = 1 \<rparr> \<and>
   \<not> \<bar>- 1 - (1 :: real)\<bar> \<le> 1 / 32768"
proof -
  have "quantize 1 = - 1" by (simp add: quantize_def to_int16_def)
  then show ?thesis by (simp add: round_trip_eq)
qed

subsection \<open>Transcription fragments\<close>


















subsection \<open>Stopping twice, and stopping while connecting\<close>

lemma resume_settled_idle: "stopping s = [] \<Longrightarrow> resume_settled s = s"
  by (simp add: resume_settled_def)

text \<open>A call of \<open>handleStop\<close> that finds no call suspended and a session promise that is
  absent or settled runs to its end within the task.\<close>

lemma setStatus_frame:
  "sessionPromiseRef (setStatus v s) = sessionPromiseRef s"
  "stopping (setStatus v s) = stopping s"
  "promises (setStatus v s) = promises s"
  by (simp_all add: setStatus_def)

lemma handleStop_no_session:
  assumes "stopping s = []" and "sessionPromiseRef s = None"
  shows "handleStop s = handleStop_rest (setStatus IDLE s)"
proof -
  have b: "handleStop_begin s = handleStop_rest (setStatus IDLE s)"
    using assms(2) by (simp add: handleStop_begin_def Let_def setStatus_frame)
  have "stopping (handleStop_rest (setStatus IDLE s)) = []"
    using assms(1) by (simp add: handleStop_rest_frame setStatus_frame)
  then show ?thesis by (simp add: handleStop_def b resume_settled_idle)
qed

lemma handleStop_settled_session:
  assumes "stopping s = []" and "sessionPromiseRef s = Some p"
    and "promise_state s p = Some out"
  shows "handleStop s =
     (handleStop_resume out ((setStatus IDLE s)\<lparr> stopping := [p] \<rparr>))\<lparr> stopping := [] \<rparr>"
proof -
  let ?s1 = "(setStatus IDLE s)\<lparr> stopping := [p] \<rparr>"
  have b: "handleStop_begin s = ?s1"
    using assms(1,2) by (simp add: handleStop_begin_def Let_def setStatus_frame)
  have ps: "promise_state ?s1 p = Some out"
    using assms(3) by (simp add: promise_state_def setStatus_frame split: if_splits)
  have st: "stopping ?s1 = [p]" by simp
  show ?thesis
    unfolding handleStop_def b resume_settled_def st by (simp add: ps)
qed

text \<open>
  Two calls of \<open>handleStop\<close>, the second made when the first has run to its end: the
  second changes no field and records one more \<open>setStatus(IDLE)\<close> and nothing else.
\<close>

lemma handleStop_again:
  assumes "stopping s = []"
    and "sessionPromiseRef s = None \<or>
         (\<exists>p out. sessionPromiseRef s = Some p \<and> promise_state s p = Some out)"
  shows "handleStop (handleStop s) = emit (SetStatus IDLE) (handleStop s)"
proof -
  define t where "t = handleStop s"
  have f: "sessionPromiseRef t = None \<and> scriptProcessorRef t = None \<and>
    microphoneStreamRef t = None \<and> inputAudioContextRef t = None \<and>
    outputAudioContextRef t = None \<and> audioSourcesRef t = [] \<and>
    nextAudioStartTimeRef t = 0 \<and> stopping t = []"
    using assms(2)
  proof
    assume n: "sessionPromiseRef s = None"
    show ?thesis
      unfolding t_def handleStop_no_session [OF assms(1) n]
      using assms(1) n
      by (simp add: handleStop_rest_fields handleStop_rest_frame setStatus_frame)
  next
    assume "\<exists>p out. sessionPromiseRef s = Some p \<and> promise_state s p = Some out"
    then obtain p out where p: "sessionPromiseRef s = Some p" "promise_state s p = Some out"
      by blast
    show ?thesis
      unfolding t_def handleStop_settled_session [OF assms(1) p]
      by (simp add: handleStop_resume_fields)
  qed
  then have g: "sessionPromiseRef t = None" "scriptProcessorRef t = None"
    "microphoneStreamRef t = None" "inputAudioContextRef t = None"
    "outputAudioContextRef t = None" "audioSourcesRef t = []"
    "nextAudioStartTimeRef t = 0" "stopping t = []"
    by simp_all
  have i: "status t = IDLE" by (simp add: t_def handleStop_frame)
  have "handleStop t = handleStop_rest (setStatus IDLE t)"
    using g by (intro handleStop_no_session) simp_all
  also have "\<dots> = emit (SetStatus IDLE) t"
    by (simp add: stop_defs g i stop_sources_Nil)
  finally show ?thesis by (simp add: t_def)
qed

lemmas run_defs = handler_defs message_defs handleStop_def handleStop_begin_def
  handleStop_resume_def handleStop_rest_def release_defs close_session_def
  stop_sources_def onerror_def

text \<open>
  C4 (the code departs from the claim). A click on Stop while the session is connecting
  sets Status to Idle and suspends \<open>handleStop\<close> at the \<open>await\<close> of the pending session
  promise. The session then opens, and \<open>onopen\<close> sets Status to Listening; when the
  promise is fulfilled, the suspended call closes the session and releases every
  handle, but Status stays Listening: the stop does not end in Idle. And two calls of
  \<open>handleStop\<close> of which the second begins before the first has continued both find the
  session promise and both close the session.
\<close>

theorem stop_while_connecting_ends_listening:
  "status stopped_while_connecting = IDLE \<and>
   stopping stopped_while_connecting = [0] \<and>
   status (run [OnOpen, Settle 0 Fulfilled] stopped_while_connecting) = LISTENING \<and>
   stopping (run [OnOpen, Settle 0 Fulfilled] stopped_while_connecting) = [] \<and>
   sessionPromiseRef (run [OnOpen, Settle 0 Fulfilled] stopped_while_connecting) = None \<and>
   microphoneStreamRef (run [OnOpen, Settle 0 Fulfilled] stopped_while_connecting) = None \<and>
   effects (run [OnOpen, Settle 0 Fulfilled] stopped_while_connecting) =
     [SetStatus CONNECTING, SetErrorMessage None, SetStatus IDLE, SetStatus LISTENING,
      SessionClose, ProcessorDisconnect, TracksStop, InputContextClose, OutputContextClose] \<and>
   effects (resume_settled (handleStop_begin (handleStop_begin listening))) =
     effects listening @
       [SetStatus IDLE, SetStatus IDLE, SessionClose, ProcessorDisconnect, TracksStop,
        InputContextClose, OutputContextClose, SessionClose]"
proof -
  have a: "run [OnOpen, Settle 0 Fulfilled] stopped_while_connecting =
     initial\<lparr> status := LISTENING,
       transcript := [\<lparr> id_turn = 1000, userInput = [], modelOutput = [],
                        isComplete = False \<rparr>],
       currentTurnId := 1000, promises := [Some Fulfilled],
       effects := [SetStatus CONNECTING, SetErrorMessage None, SetStatus IDLE,
                   SetStatus LISTENING, SessionClose, ProcessorDisconnect, TracksStop,
                   InputContextClose, OutputContextClose] \<rparr>"
    by (simp add: stopped_while_connecting_eq run_defs stop_sources_Nil)
  have b: "effects (resume_settled (handleStop_begin (handleStop_begin listening))) =
     effects listening @
       [SetStatus IDLE, SetStatus IDLE, SessionClose, ProcessorDisconnect, TracksStop,
        InputContextClose, OutputContextClose, SessionClose]"
    by (simp add: listening_eq run_defs)
  show ?thesis
    unfolding a using b by (simp add: stopped_while_connecting_eq initial_def)
qed

end
